theory Spec2Isabelle
  imports Main "HOL-Library.Word"
begin

unbundle bit_operations_syntax

section \<open>Data model of MeshtasticInterface.py\<close>

type_synonym byte = "8 word"
type_synonym bytes = "byte list"

text \<open>Exceptions of the source as values. \<open>ValueError\<close> is what \<open>range\<close> raises on a
  zero step, \<open>DecodeError\<close> what the protobuf parser raises, \<open>OSError\<close> what the socket
  raises.\<close>

datatype error = ValueError | DecodeError | OSError

text \<open>The fields of a \<open>MeshPacket\<close> that the interface sets or reads. \<open>decoded\<close> is an
  optional sub-message (\<open>HasField('decoded')\<close>).\<close>

record data_msg =
  payload :: bytes
  portnum :: int

record mesh_packet =
  pkt_to :: nat
  pkt_id :: nat
  pkt_channel :: int
  want_ack :: bool
  decoded :: "data_msg option"

text \<open>The meshtastic protobuf library is not part of the repository; the interface uses
  one constant and three codec entry points of it, taken here as parameters:
  \<open>Constants.DATA_PAYLOAD_LEN\<close>, \<open>ToRadio.SerializeToString\<close> for a \<open>ToRadio\<close> holding a
  packet, the same for a \<open>ToRadio\<close> holding only \<open>want_config_id\<close>, and
  \<open>FromRadio.FromString(buf).packet\<close>, which is \<open>None\<close> where the parser raises.\<close>

record meshtastic =
  DATA_PAYLOAD_LEN :: int
  SerializeToString :: "mesh_packet \<Rightarrow> bytes"
  SerializeWantConfig :: "nat \<Rightarrow> bytes"
  FromString :: "bytes \<Rightarrow> mesh_packet option"

text \<open>The instance attributes of \<open>MeshtasticInterface\<close>, followed by what the instance
  does to its collaborators, kept as logs: the buffers accepted by \<open>self._sock.send\<close>,
  the messages handed to \<open>self.owner.inbound\<close>, the time spent in \<open>sleep\<close>
  (milliseconds), the calls of \<open>open_port\<close> and the read threads started.\<close>

record iface =
  recvbuf :: bytes
  recv_partial_msg :: "mesh_packet list"
  channel :: int
  mesh_port_num :: int
  online :: bool
  rxb :: nat
  txb :: nat
  sock_sent :: "bytes list"
  inbound :: "bytes list"
  slept_ms :: nat
  open_attempts :: nat
  threads_started :: nat

definition MT_MAGIC_0 :: byte where
  "MT_MAGIC_0 = 0x94"

definition MT_MAGIC_1 :: byte where
  "MT_MAGIC_1 = 0xc3"

definition MESH_DEST_ADDR :: nat where
  "MESH_DEST_ADDR = 0xFFFFFFFF"

definition MESH_SPECIAL_NONCE :: nat where
  "MESH_SPECIAL_NONCE = 69420"

section \<open>Python primitives\<close>

text \<open>\<open>xs[i:j]\<close> for non-negative \<open>i\<close>, \<open>j\<close>: out-of-range bounds are clipped.\<close>

definition slice :: "'a list \<Rightarrow> nat \<Rightarrow> nat \<Rightarrow> 'a list" where
  "slice xs i j = take (j - i) (drop i xs)"

text \<open>\<open>range(start, stop, step)\<close> for a positive step (the callers test the step first).\<close>

function py_range :: "nat \<Rightarrow> nat \<Rightarrow> nat \<Rightarrow> nat list" where
  "py_range start stop step =
     (if step = 0 \<or> stop \<le> start then [] else start # py_range (start + step) stop step)"
  by pat_completeness auto
termination
  by (relation "measure (\<lambda>(start, stop, step). stop - start)") auto

declare py_range.simps [simp del]

text \<open>\<open>bytes.find(b)\<close> for a single byte value: the lowest index, or \<open>-1\<close>.\<close>

definition bytes_find :: "bytes \<Rightarrow> byte \<Rightarrow> int" where
  "bytes_find xs b = (if b \<in> set xs then int (length (takeWhile (\<lambda>x. x \<noteq> b) xs)) else - 1)"

definition sleep :: "nat \<Rightarrow> iface \<Rightarrow> iface" where
  "sleep ms self = self\<lparr>slept_ms := slept_ms self + ms\<rparr>"

section \<open>Encoder: \<open>_create_mesh_packets\<close>\<close>

text \<open>The four header bytes and the serialized message, as
  \<open>bytes([MT_MAGIC_0, MT_MAGIC_1, (buflen >> 8) & 0xFF, buflen & 0xFF]) + packet\<close>.\<close>

definition wire_frame :: "bytes \<Rightarrow> bytes" where
  "wire_frame packet =
     (let buflen = length packet
      in [MT_MAGIC_0, MT_MAGIC_1, of_nat (drop_bit 8 buflen AND 0xFF), of_nat (buflen AND 0xFF)]
         @ packet)"

text \<open>The packet built by one iteration of the loop of \<open>_create_mesh_packets\<close>, at
  offset \<open>start_byte\<close>.\<close>

definition fragment_packet :: "iface \<Rightarrow> bytes \<Rightarrow> nat \<Rightarrow> nat \<Rightarrow> mesh_packet" where
  "fragment_packet self data MAX_LEN start_byte =
     \<lparr>pkt_to = MESH_DEST_ADDR,
      pkt_id = 0,
      pkt_channel = channel self,
      want_ack = False,
      decoded = Some \<lparr>payload = slice data start_byte (start_byte + MAX_LEN),
                      portnum = (if start_byte + MAX_LEN \<ge> length data
                                 then mesh_port_num self + 1 else mesh_port_num self)\<rparr>\<rparr>"

text \<open>The logical packets of a payload, in loop order. \<open>range\<close> raises on a zero step
  and is empty on a negative one.\<close>

definition fragment_packets :: "meshtastic \<Rightarrow> iface \<Rightarrow> bytes \<Rightarrow> error + mesh_packet list" where
  "fragment_packets lib self data =
     (let MAX_LEN = DATA_PAYLOAD_LEN lib - 4
      in if MAX_LEN = 0 then Inl ValueError
         else if MAX_LEN < 0 then Inr []
         else Inr (map (fragment_packet self data (nat MAX_LEN))
                       (py_range 0 (length data) (nat MAX_LEN))))"

definition create_mesh_packets :: "meshtastic \<Rightarrow> iface \<Rightarrow> bytes \<Rightarrow> error + bytes list" where
  "create_mesh_packets lib self data =
     (case fragment_packets lib self data of
        Inl e \<Rightarrow> Inl e
      | Inr packets \<Rightarrow> Inr (map (\<lambda>mesh_packet. wire_frame (SerializeToString lib mesh_packet)) packets))"

section \<open>Decoder: \<open>_decode_mesh_packets\<close>\<close>

text \<open>One iteration of the \<open>while len(self._recvbuf) > 4\<close> loop: go round again with a
  new buffer and result list, return, or raise out of the parser.\<close>

datatype step = Continue bytes "mesh_packet list" | Return "mesh_packet list" | Raise error

definition decode_iter :: "(bytes \<Rightarrow> mesh_packet option) \<Rightarrow> bytes \<Rightarrow> mesh_packet list \<Rightarrow> step" where
  "decode_iter from_string buf result =
     (if buf ! 0 = MT_MAGIC_0 \<and> buf ! 1 = MT_MAGIC_1 then
        let payload_len = push_bit 8 (unat (buf ! 2)) OR unat (buf ! 3);
            start_packet_idx = 4;
            end_packet_idx = start_packet_idx + payload_len
        in if end_packet_idx > length buf then Return result
           else (case from_string (slice buf start_packet_idx end_packet_idx) of
                   None \<Rightarrow> Raise DecodeError
                 | Some packet \<Rightarrow> Continue (drop end_packet_idx buf) (result @ [packet]))
      else Continue (drop 1 buf) result)"

text \<open>The loop. Nothing in its shape says that it ends, so it is a partial function:
  \<open>None\<close> is a loop that never returns. The value is the returned list (or the exception)
  and the buffer left in \<open>self._recvbuf\<close>.\<close>

partial_function (option) decode_loop ::
  "(bytes \<Rightarrow> mesh_packet option) \<Rightarrow> bytes \<Rightarrow> mesh_packet list
     \<Rightarrow> ((error + mesh_packet list) \<times> bytes) option" where
  "decode_loop from_string buf result =
     (if length buf > 4 then
        (case decode_iter from_string buf result of
           Continue buf' result' \<Rightarrow> decode_loop from_string buf' result'
         | Return r \<Rightarrow> Some (Inr r, buf)
         | Raise e \<Rightarrow> Some (Inl e, buf))
      else Some (Inr result, buf))"

declare decode_loop.simps [code]

definition decode_mesh_packets ::
  "meshtastic \<Rightarrow> iface \<Rightarrow> bytes \<Rightarrow> ((error + mesh_packet list) \<times> iface) option" where
  "decode_mesh_packets lib self data =
     (let buf = recvbuf self @ data;
          first_magic_idx = bytes_find buf MT_MAGIC_0
      in if first_magic_idx < 0 then Some (Inr [], self\<lparr>recvbuf := []\<rparr>)
         else
           (case decode_loop (FromString lib)
                   (if first_magic_idx > 0 then drop (nat first_magic_idx) buf else buf) [] of
              None \<Rightarrow> None
            | Some (r, buf') \<Rightarrow> Some (r, self\<lparr>recvbuf := buf'\<rparr>)))"

section \<open>Reassembly: the body of \<open>read_loop\<close>\<close>

definition process_incoming :: "iface \<Rightarrow> bytes \<Rightarrow> iface" where
  "process_incoming self data =
     self\<lparr>rxb := rxb self + length data, inbound := inbound self @ [data]\<rparr>"

text \<open>\<open>x.decoded.payload\<close>: protobuf reads an absent sub-message as its default.\<close>

definition decoded_payload :: "mesh_packet \<Rightarrow> bytes" where
  "decoded_payload x = (case decoded x of None \<Rightarrow> [] | Some d \<Rightarrow> payload d)"

text \<open>The body of \<open>for packet in packets\<close>.\<close>

definition accept_packet :: "iface \<Rightarrow> mesh_packet \<Rightarrow> iface" where
  "accept_packet self packet =
     (case decoded packet of
        None \<Rightarrow> self
      | Some d \<Rightarrow>
          if pkt_channel packet = channel self then
            let self1 = self\<lparr>recv_partial_msg := recv_partial_msg self @ [packet]\<rparr>
            in if portnum d = mesh_port_num self1 + 1 then
                 let r_packet = concat (map decoded_payload (recv_partial_msg self1))
                 in (process_incoming self1 r_packet)\<lparr>recv_partial_msg := []\<rparr>
               else self1
          else self)"

text \<open>One pass of the \<open>while True\<close> body for a non-empty read \<open>buf\<close>.\<close>

definition read_loop_body ::
  "meshtastic \<Rightarrow> iface \<Rightarrow> bytes \<Rightarrow> ((error + unit) \<times> iface) option" where
  "read_loop_body lib self buf =
     (case decode_mesh_packets lib self buf of
        None \<Rightarrow> None
      | Some (Inl e, self') \<Rightarrow> Some (Inl e, self')
      | Some (Inr packets, self') \<Rightarrow> Some (Inr (), foldl accept_packet self' packets))"

section \<open>Sending: \<open>process_outgoing\<close>\<close>

text \<open>\<open>self._sock.send\<close> belongs to the socket library: \<open>sock_send log packet\<close> is the
  count it returns, or the exception it raises, given the buffers sent before.\<close>

fun send_packets ::
  "(bytes list \<Rightarrow> bytes \<Rightarrow> error + nat) \<Rightarrow> iface \<Rightarrow> bytes list \<Rightarrow> (error + unit) \<times> iface" where
  "send_packets sock_send self [] = (Inr (), self)"
| "send_packets sock_send self (packet # rest) =
     (case sock_send (sock_sent self) packet of
        Inl e \<Rightarrow> (Inl e, self)
      | Inr n \<Rightarrow>
          send_packets sock_send
            (self\<lparr>txb := txb self + n, sock_sent := sock_sent self @ [packet]\<rparr>) rest)"

definition process_outgoing ::
  "meshtastic \<Rightarrow> (bytes list \<Rightarrow> bytes \<Rightarrow> error + nat) \<Rightarrow> iface \<Rightarrow> bytes
     \<Rightarrow> (error + unit) \<times> iface" where
  "process_outgoing lib sock_send self data =
     (if online self then
        (case create_mesh_packets lib self data of
           Inl e \<Rightarrow> (Inl e, self)
         | Inr packets \<Rightarrow> send_packets sock_send self packets)
      else (Inr (), self))"

section \<open>Connection life cycle: \<open>open_port\<close>, \<open>configure_device\<close>, \<open>reconnect_port\<close>, \<open>read_loop\<close>\<close>

definition request_mesh_config_info_packet :: "meshtastic \<Rightarrow> bytes" where
  "request_mesh_config_info_packet lib = wire_frame (SerializeWantConfig lib MESH_SPECIAL_NONCE)"

text \<open>\<open>open_port\<close>: \<open>connect n\<close> is the exception that the \<open>n\<close>-th call meets in
  \<open>sock.connect\<close> or in sending the configuration request, \<open>None\<close> when both succeed.\<close>

definition open_port :: "meshtastic \<Rightarrow> (nat \<Rightarrow> error option) \<Rightarrow> iface \<Rightarrow> (error + unit) \<times> iface" where
  "open_port lib connect self =
     (let self1 = self\<lparr>open_attempts := open_attempts self + 1\<rparr>
      in case connect (open_attempts self) of
           Some e \<Rightarrow> (Inl e, self1)
         | None \<Rightarrow>
             (Inr (), self1\<lparr>sock_sent := sock_sent self1 @ [request_mesh_config_info_packet lib]\<rparr>))"

definition configure_device :: "iface \<Rightarrow> iface" where
  "configure_device self =
     (let self1 = sleep 500 self;
          self2 = self1\<lparr>threads_started := threads_started self1 + 1\<rparr>
      in self2\<lparr>online := True\<rparr>)"

text \<open>\<open>reconnect_port\<close>: \<open>while not self.online\<close>, with every exception of the attempt
  caught and logged. \<open>None\<close> is a loop that never returns.\<close>

partial_function (option) reconnect_port ::
  "meshtastic \<Rightarrow> (nat \<Rightarrow> error option) \<Rightarrow> iface \<Rightarrow> ((error + unit) \<times> iface) option" where
  "reconnect_port lib connect self =
     (if \<not> online self then
        (case open_port lib connect (sleep 5000 self) of
           (Inl e, self') \<Rightarrow> reconnect_port lib connect self'
         | (Inr u, self') \<Rightarrow> reconnect_port lib connect (configure_device self'))
      else Some (Inr (), self))"

declare reconnect_port.simps [code]

text \<open>\<open>read_loop\<close>, over the successive results of \<open>self._sock.recv(2048)\<close>: a byte
  string, or the exception raised. When the results run out, \<open>recv\<close> blocks for ever.\<close>

fun read_loop ::
  "meshtastic \<Rightarrow> (nat \<Rightarrow> error option) \<Rightarrow> iface \<Rightarrow> (error + bytes) list
     \<Rightarrow> ((error + unit) \<times> iface) option" where
  "read_loop lib connect self [] = None"
| "read_loop lib connect self (Inl e # reads) = Some (Inl e, sleep 50 self)"
| "read_loop lib connect self (Inr buf # reads) =
     (if length buf = 0 then reconnect_port lib connect ((sleep 50 self)\<lparr>online := False\<rparr>)
      else
        (case read_loop_body lib (sleep 50 self) buf of
           None \<Rightarrow> None
         | Some (Inl e, self') \<Rightarrow> Some (Inl e, self')
         | Some (Inr u, self') \<Rightarrow> read_loop lib connect self' reads))"

section \<open>Vocabulary of the claims\<close>

text \<open>An occurrence of the two-byte magic pair somewhere in a byte string.\<close>

fun has_magic_pair :: "bytes \<Rightarrow> bool" where
  "has_magic_pair (a # b # xs) = ((a = MT_MAGIC_0 \<and> b = MT_MAGIC_1) \<or> has_magic_pair (b # xs))"
| "has_magic_pair _ = False"

text \<open>The logical packet of a fragment as the encoder fills it in: broadcast destination,
  id 0, no acknowledgement, and the given channel, port number and payload.\<close>

abbreviation logical_packet :: "int \<Rightarrow> int \<Rightarrow> bytes \<Rightarrow> mesh_packet" where
  "logical_packet ch port bs \<equiv>
     \<lparr>pkt_to = MESH_DEST_ADDR, pkt_id = 0, pkt_channel = ch, want_ack = False,
      decoded = Some \<lparr>payload = bs, portnum = port\<rparr>\<rparr>"

text \<open>Feeding a byte string to the decoder in two calls, cut at offset \<open>k\<close>: the packets
  of both calls together, and the interface afterwards.\<close>

definition feed_split ::
  "meshtastic \<Rightarrow> iface \<Rightarrow> bytes \<Rightarrow> nat \<Rightarrow> ((error + mesh_packet list) \<times> iface) option" where
  "feed_split lib self F k =
     (case decode_mesh_packets lib self (take k F) of
        None \<Rightarrow> None
      | Some (Inl e, self1) \<Rightarrow> Some (Inl e, self1)
      | Some (Inr packets1, self1) \<Rightarrow>
          (case decode_mesh_packets lib self1 (drop k F) of
             None \<Rightarrow> None
           | Some (Inl e, self2) \<Rightarrow> Some (Inl e, self2)
           | Some (Inr packets2, self2) \<Rightarrow> Some (Inr (packets1 @ packets2), self2)))"

section \<open>A concrete codec and interface, for running the model on inputs\<close>

text \<open>A stand-in for the protobuf codec. A message is one tag byte, standing for the field
  number of the packet in the message, then the channel, the port number in two bytes and
  the payload. As in the protobuf schema, \<open>ToRadio\<close> carries its packet in field 1 and
  \<open>FromRadio\<close> in field 2: \<open>example_serialize\<close> writes a \<open>ToRadio\<close>, and
  \<open>example_parse\<close> reads a \<open>FromRadio\<close>, for which a message with another field, or
  with none, has no packet and reads as a packet without a \<open>decoded\<close> part. Field
  number 0 does not exist, and the parser raises on it.\<close>

definition example_serialize :: "mesh_packet \<Rightarrow> bytes" where
  "example_serialize p =
     (case decoded p of
        None \<Rightarrow> [0]
      | Some d \<Rightarrow>
          1 # of_int (pkt_channel p mod 256) # of_int (portnum d div 256 mod 256)
            # of_int (portnum d mod 256) # payload d)"

definition example_parse :: "bytes \<Rightarrow> mesh_packet option" where
  "example_parse bs =
     (case bs of
        t # c # ph # pl # pay \<Rightarrow>
          if t = 2 then
            Some \<lparr>pkt_to = MESH_DEST_ADDR, pkt_id = 0, pkt_channel = uint c, want_ack = False,
                  decoded = Some \<lparr>payload = pay, portnum = uint ph * 256 + uint pl\<rparr>\<rparr>
          else if t = 0 then None
          else Some \<lparr>pkt_to = 0, pkt_id = 0, pkt_channel = 0, want_ack = False, decoded = None\<rparr>
      | _ \<Rightarrow> Some \<lparr>pkt_to = 0, pkt_id = 0, pkt_channel = 0, want_ack = False, decoded = None\<rparr>)"

definition example_lib :: "int \<Rightarrow> meshtastic" where
  "example_lib n =
     \<lparr>DATA_PAYLOAD_LEN = n,
      SerializeToString = example_serialize,
      SerializeWantConfig = (\<lambda>nonce. [3, of_nat nonce]),
      FromString = example_parse\<rparr>"

definition example_iface :: iface where
  "example_iface =
     \<lparr>recvbuf = [], recv_partial_msg = [], channel = 2, mesh_port_num = 256, online = True,
      rxb = 0, txb = 0, sock_sent = [], inbound = [], slept_ms = 0, open_attempts = 1,
      threads_started = 1\<rparr>"

section \<open>Facts about the wire format and the decoder loop\<close>

lemma be16: "push_bit 8 (unat (a::byte)) OR unat (b::byte) = 256 * unat a + unat b"
proof -
  have "push_bit 8 (unat a) + unat b = push_bit 8 (unat a) OR unat b"
  proof (rule disjunctive_add)
    fix n show "\<not> bit (push_bit 8 (unat a)) n \<or> \<not> bit (unat b) n"
      by (cases "n < 8") (auto simp: bit_simps dest: bit_imp_le_length)
  qed
  then show ?thesis by (simp add: push_bit_eq_mult)
qed

lemma and_ff: "(n::nat) AND 0xFF = n mod 256"
proof -
  have "n AND mask 8 = take_bit 8 n" by (simp add: take_bit_eq_mask)
  then show ?thesis by (simp add: take_bit_eq_mod mask_eq_exp_minus_1)
qed

lemma wire_frame_length: "length (wire_frame inner) = 4 + length inner"
  by (simp add: wire_frame_def Let_def)

lemma wire_frame_drop4: "drop 4 (wire_frame inner @ rest) = inner @ rest"
  by (simp add: wire_frame_def Let_def eval_nat_numeral)

lemma wire_frame_payload_len:
  assumes "length inner < 65536"
  shows "push_bit 8 (unat ((wire_frame inner @ rest) ! 2)) OR unat ((wire_frame inner @ rest) ! 3)
         = length inner"
proof -
  have hi: "unat ((wire_frame inner @ rest) ! 2) = length inner div 256"
    using assms by (simp add: wire_frame_def Let_def and_ff unat_of_nat drop_bit_eq_div)
  have lo: "unat ((wire_frame inner @ rest) ! 3) = length inner mod 256"
    by (simp add: wire_frame_def Let_def and_ff unat_of_nat)
  have "push_bit 8 (unat ((wire_frame inner @ rest) ! 2)) OR unat ((wire_frame inner @ rest) ! 3)
        = 256 * unat ((wire_frame inner @ rest) ! 2) + unat ((wire_frame inner @ rest) ! 3)"
    by (rule be16)
  also have "\<dots> = 256 * (length inner div 256) + length inner mod 256"
    by (simp only: hi lo)
  finally show ?thesis by simp
qed

lemma decode_iter_frame:
  assumes "length inner < 65536" and "from_string inner = Some p"
  shows "decode_iter from_string (wire_frame inner @ rest) result = Continue rest (result @ [p])"
proof -
  let ?buf = "wire_frame inner @ rest"
  have m: "?buf ! 0 = MT_MAGIC_0 \<and> ?buf ! 1 = MT_MAGIC_1"
    by (simp add: wire_frame_def Let_def)
  have l: "push_bit 8 (unat (?buf ! 2)) OR unat (?buf ! 3) = length inner"
    by (rule wire_frame_payload_len [OF assms(1)])
  have s: "slice ?buf 4 (4 + length inner) = inner"
    by (simp only: slice_def wire_frame_drop4) simp
  have d: "drop (4 + length inner) ?buf = rest"
    using wire_frame_length [of inner] by simp
  show ?thesis
    unfolding decode_iter_def using m l s d assms(2)
    by (simp add: Let_def wire_frame_length)
qed

lemma decode_loop_short:
  "length buf \<le> 4 \<Longrightarrow> decode_loop from_string buf result = Some (Inr result, buf)"
  by (subst decode_loop.simps) simp

lemma decode_loop_frame:
  assumes "length inner < 65536" and "from_string inner = Some p"
    and "inner \<noteq> [] \<or> rest \<noteq> []"
  shows "decode_loop from_string (wire_frame inner @ rest) result
         = decode_loop from_string rest (result @ [p])"
proof -
  have "length (wire_frame inner @ rest) > 4"
    using assms(3) by (auto simp: wire_frame_length)
  then show ?thesis
    by (subst decode_loop.simps) (simp add: decode_iter_frame [of inner from_string p, OF assms(1,2)])
qed

lemma decode_iter_progress:
  assumes "decode_iter from_string buf result = Continue buf' result'" and "buf \<noteq> []"
  shows "length buf' < length buf"
  using assms
  by (auto simp: decode_iter_def Let_def split: if_splits option.splits)

lemma decode_loop_terminates: "\<exists>r. decode_loop from_string buf result = Some r"
proof (induction buf arbitrary: result rule: length_induct)
  case (1 buf)
  show ?case
  proof (cases "length buf > 4")
    case False
    then show ?thesis by (simp add: decode_loop_short)
  next
    case True
    then have ne: "buf \<noteq> []" by auto
    show ?thesis
    proof (cases "decode_iter from_string buf result")
      case (Continue buf' result')
      then have "length buf' < length buf" using ne by (rule decode_iter_progress)
      with 1 obtain r where "decode_loop from_string buf' result' = Some r" by blast
      with Continue True show ?thesis by (subst decode_loop.simps) simp
    next
      case (Return r)
      with True show ?thesis by (subst decode_loop.simps) simp
    next
      case (Raise e)
      with True show ?thesis by (subst decode_loop.simps) simp
    qed
  qed
qed

lemma decode_loop_frames:
  assumes "list_all2 (\<lambda>inner p. inner \<noteq> [] \<and> length inner < 65536 \<and> from_string inner = Some p) inners ps"
  shows "decode_loop from_string (concat (map wire_frame inners) @ rest) result
         = decode_loop from_string rest (result @ ps)"
  using assms
proof (induction inners ps arbitrary: result rule: list_all2_induct)
  case Nil
  then show ?case by simp
next
  case (Cons inner inners p ps)
  have "decode_loop from_string (wire_frame inner @ (concat (map wire_frame inners) @ rest)) result
        = decode_loop from_string (concat (map wire_frame inners) @ rest) (result @ [p])"
    using Cons.hyps(1) by (intro decode_loop_frame) auto
  then show ?case using Cons.IH [of "result @ [p]"] by simp
qed

lemma wire_frame_hd: "wire_frame inner = MT_MAGIC_0 # MT_MAGIC_1 # drop 2 (wire_frame inner)"
  by (simp add: wire_frame_def Let_def)

lemma bytes_find_hd: "bytes_find (MT_MAGIC_0 # xs) MT_MAGIC_0 = 0"
  by (simp add: bytes_find_def)

lemma bytes_find_none: "MT_MAGIC_0 \<notin> set xs \<Longrightarrow> bytes_find xs MT_MAGIC_0 = - 1"
  by (simp add: bytes_find_def)

lemma decode_mesh_packets_at_magic:
  assumes "recvbuf self @ data = MT_MAGIC_0 # xs"
  shows "decode_mesh_packets lib self data =
         (case decode_loop (FromString lib) (MT_MAGIC_0 # xs) [] of
            None \<Rightarrow> None
          | Some (r, buf') \<Rightarrow> Some (r, self\<lparr>recvbuf := buf'\<rparr>))"
  unfolding decode_mesh_packets_def Let_def assms bytes_find_hd by simp

lemma has_magic_pair_tl: "has_magic_pair (drop 1 xs) \<Longrightarrow> has_magic_pair xs"
  by (cases xs rule: has_magic_pair.cases) auto

lemma has_magic_pair_dropWhile: "has_magic_pair (dropWhile P xs) \<Longrightarrow> has_magic_pair xs"
proof (induction xs)
  case Nil
  then show ?case by simp
next
  case (Cons a xs)
  then show ?case using has_magic_pair_tl [of "a # xs"] by (auto split: if_splits)
qed

lemma decode_loop_no_magic:
  "\<not> has_magic_pair buf \<Longrightarrow>
   decode_loop from_string buf result = Some (Inr result, drop (length buf - 4) buf)"
proof (induction buf)
  case Nil
  then show ?case by (simp add: decode_loop_short)
next
  case (Cons a buf)
  show ?case
  proof (cases "length (a # buf) > 4")
    case False
    then show ?thesis by (simp add: decode_loop_short)
  next
    case True
    then obtain b xs where buf: "buf = b # xs" by (cases buf) auto
    with Cons.prems have nm: "\<not> (a = MT_MAGIC_0 \<and> b = MT_MAGIC_1)" and rest: "\<not> has_magic_pair buf"
      by auto
    have it: "decode_iter from_string (a # buf) result = Continue buf result"
      using nm buf by (auto simp: decode_iter_def)
    have "decode_loop from_string (a # buf) result = decode_loop from_string buf result"
      using True it by (subst decode_loop.simps) simp
    also have "\<dots> = Some (Inr result, drop (length buf - 4) buf)"
      using Cons.IH [OF rest] .
    also have "drop (length buf - 4) buf = drop (length (a # buf) - 4) (a # buf)"
    proof -
      have "length (a # buf) - 4 = Suc (length buf - 4)" using True by simp
      then show ?thesis by (simp only: drop_Suc_Cons)
    qed
    finally show ?thesis .
  qed
qed

lemma wire_frame_empty: "wire_frame [] = [MT_MAGIC_0, MT_MAGIC_1, 0, 0]"
  by (simp add: wire_frame_def)

lemma decode_loop_result_prefix:
  "decode_loop from_string buf result = Some (Inr packets, buf') \<Longrightarrow> \<exists>ys. packets = result @ ys"
proof (induction buf arbitrary: result rule: length_induct)
  case (1 buf)
  show ?case
  proof (cases "length buf > 4")
    case False
    with 1(2) show ?thesis by (simp add: decode_loop_short)
  next
    case True
    then have ne: "buf \<noteq> []" by auto
    show ?thesis
    proof (cases "decode_iter from_string buf result")
      case (Continue b r)
      then have less: "length b < length buf" using ne by (rule decode_iter_progress)
      have "decode_loop from_string b r = Some (Inr packets, buf')"
        using 1(2) True Continue by (subst (asm) decode_loop.simps) simp
      with 1(1) less obtain ys where ys: "packets = r @ ys" by blast
      from Continue have "\<exists>zs. r = result @ zs"
        by (auto simp: decode_iter_def Let_def split: if_splits option.splits)
      with ys show ?thesis by auto
    next
      case (Return r)
      then have "r = result"
        by (auto simp: decode_iter_def Let_def split: if_splits option.splits)
      with 1(2) True Return show ?thesis by (subst (asm) decode_loop.simps) simp
    next
      case (Raise e)
      with 1(2) True show ?thesis by (subst (asm) decode_loop.simps) simp
    qed
  qed
qed

lemma feed_split_whole:
  assumes "recvbuf self = []" and "F = MT_MAGIC_0 # xs"
    and "decode_loop (FromString lib) (take k F) [] = Some (Inr [], take k F)"
    and "decode_loop (FromString lib) F [] = Some (Inr packets, buf')"
  shows "feed_split lib self F k = Some (Inr packets, self\<lparr>recvbuf := buf'\<rparr>)"
proof (cases k)
  case 0
  have "decode_mesh_packets lib self [] = Some (Inr [], self\<lparr>recvbuf := []\<rparr>)"
    using assms(1) by (simp add: decode_mesh_packets_def bytes_find_def)
  moreover have "recvbuf (self\<lparr>recvbuf := []\<rparr>) @ F = MT_MAGIC_0 # xs"
    using assms(2) by simp
  from decode_mesh_packets_at_magic [OF this, of lib]
  have "decode_mesh_packets lib (self\<lparr>recvbuf := []\<rparr>) F = Some (Inr packets, self\<lparr>recvbuf := buf'\<rparr>)"
    using assms(2,4) by simp
  ultimately show ?thesis using 0 by (simp add: feed_split_def)
next
  case (Suc n)
  then have tk: "take k F = MT_MAGIC_0 # take n xs" using assms(2) by simp
  then have "recvbuf self @ take k F = MT_MAGIC_0 # take n xs" using assms(1) by simp
  from decode_mesh_packets_at_magic [OF this, of lib]
  have first: "decode_mesh_packets lib self (take k F) = Some (Inr [], self\<lparr>recvbuf := take k F\<rparr>)"
    using assms(3) tk by simp
  have "recvbuf (self\<lparr>recvbuf := take k F\<rparr>) @ drop k F = MT_MAGIC_0 # xs"
    using assms(2) by simp
  from decode_mesh_packets_at_magic [OF this, of lib]
  have "decode_mesh_packets lib (self\<lparr>recvbuf := take k F\<rparr>) (drop k F)
        = Some (Inr packets, self\<lparr>recvbuf := buf'\<rparr>)"
    using assms(2,4) by simp
  with first show ?thesis by (simp add: feed_split_def)
qed

lemma decode_loop_partial_frame:
  assumes "length inner < 65536" and "k < 4 + length inner"
  shows "decode_loop from_string (take k (wire_frame inner)) [] = Some (Inr [], take k (wire_frame inner))"
proof (cases "k \<le> 4")
  case True
  then show ?thesis by (simp add: decode_loop_short)
next
  case False
  let ?buf = "take k (wire_frame inner)"
  have len: "length ?buf = k" using assms(2) by (simp add: wire_frame_length)
  have nth: "\<And>i. i < 4 \<Longrightarrow> ?buf ! i = (wire_frame inner @ []) ! i" using False by simp
  have m: "?buf ! 0 = MT_MAGIC_0 \<and> ?buf ! 1 = MT_MAGIC_1"
    using False by (simp add: wire_frame_def Let_def)
  have l: "push_bit 8 (unat (?buf ! 2)) OR unat (?buf ! 3) = length inner"
    using wire_frame_payload_len [OF assms(1), of "[]"] nth [of 2] nth [of 3] by simp
  have "decode_iter from_string ?buf [] = Return []"
    unfolding decode_iter_def using m l len assms(2) by (simp add: Let_def)
  then show ?thesis using False len by (subst decode_loop.simps) simp
qed

lemma split_frame_decodes_once:
  assumes "recvbuf self = []" and "inner \<noteq> []" and "length inner < 65536"
    and "FromString lib inner = Some p"
  shows "feed_split lib self (wire_frame inner) k = Some (Inr [p], self\<lparr>recvbuf := []\<rparr>)"
proof (cases "k < 4 + length inner")
  case True
  have whole: "decode_loop (FromString lib) (wire_frame inner) [] = Some (Inr [p], [])"
    using decode_loop_frame [of inner "FromString lib" p "[]" "[]"] assms
    by (simp add: decode_loop_short)
  show ?thesis
    using assms(1) wire_frame_hd decode_loop_partial_frame [OF assms(3) True] whole
    by (rule feed_split_whole)
next
  case False
  have whole: "decode_loop (FromString lib) (wire_frame inner) [] = Some (Inr [p], [])"
    using decode_loop_frame [of inner "FromString lib" p "[]" "[]"] assms
    by (simp add: decode_loop_short)
  from False have tk: "take k (wire_frame inner) = wire_frame inner"
    and dr: "drop k (wire_frame inner) = []" by (simp_all add: wire_frame_length)
  obtain xs where xs: "wire_frame inner = MT_MAGIC_0 # xs" using wire_frame_hd by blast
  then have "recvbuf self @ wire_frame inner = MT_MAGIC_0 # xs" using assms(1) by simp
  from decode_mesh_packets_at_magic [OF this, of lib] whole xs
  have first: "decode_mesh_packets lib self (wire_frame inner) = Some (Inr [p], self\<lparr>recvbuf := []\<rparr>)"
    by simp
  have "decode_mesh_packets lib (self\<lparr>recvbuf := []\<rparr>) [] = Some (Inr [], self\<lparr>recvbuf := []\<rparr>)"
    by (simp add: decode_mesh_packets_def bytes_find_def)
  with first show ?thesis by (simp add: feed_split_def tk dr)
qed

lemma decode_without_magic_exact:
  assumes "recvbuf self = []" and "\<not> has_magic_pair data"
  shows "decode_mesh_packets lib self data =
         Some (Inr [], self\<lparr>recvbuf :=
           (let t = dropWhile (\<lambda>x. x \<noteq> MT_MAGIC_0) data in drop (length t - 4) t)\<rparr>)"
proof (cases "MT_MAGIC_0 \<in> set data")
  case False
  then have dw: "dropWhile (\<lambda>x. x \<noteq> MT_MAGIC_0) data = []"
    by (auto simp: dropWhile_eq_Nil_conv)
  have "decode_mesh_packets lib self data = Some (Inr [], self\<lparr>recvbuf := []\<rparr>)"
    using False assms(1) by (simp add: decode_mesh_packets_def bytes_find_none Let_def)
  then show ?thesis by (simp only: dw Let_def) simp
next
  case True
  let ?t = "dropWhile (\<lambda>x. x \<noteq> MT_MAGIC_0) data"
  let ?idx = "bytes_find data MT_MAGIC_0"
  have idx: "?idx = int (length (takeWhile (\<lambda>x. x \<noteq> MT_MAGIC_0) data))"
    using True by (simp add: bytes_find_def)
  have "(if ?idx > 0 then drop (nat ?idx) data else data) = ?t"
    unfolding idx dropWhile_eq_drop by simp
  moreover have "\<not> has_magic_pair ?t"
    using assms(2) has_magic_pair_dropWhile by blast
  ultimately have "decode_loop (FromString lib) (if ?idx > 0 then drop (nat ?idx) data else data) []
      = Some (Inr [], drop (length ?t - 4) ?t)"
    by (simp add: decode_loop_no_magic)
  moreover have "\<not> ?idx < 0" by (simp add: idx)
  ultimately show ?thesis
    using assms(1) by (simp add: decode_mesh_packets_def Let_def)
qed


section \<open>Facts about the encoder and the send loop\<close>

lemma wire_frame_small:
  "length packet = n \<Longrightarrow> n < 256 \<Longrightarrow>
   wire_frame packet = [MT_MAGIC_0, MT_MAGIC_1, 0, of_nat n] @ packet"
  by (simp add: wire_frame_def Let_def and_ff drop_bit_eq_div)

lemma py_range_empty [simp]: "py_range start start step = []"
  by (simp add: py_range.simps)

lemma fragment_packet_online [simp]:
  "fragment_packet (self\<lparr>online := b\<rparr>) data m start = fragment_packet self data m start"
  by (simp add: fragment_packet_def)

lemma create_mesh_packets_online [simp]:
  "create_mesh_packets lib (self\<lparr>online := b\<rparr>) data = create_mesh_packets lib self data"
  by (simp add: create_mesh_packets_def fragment_packets_def Let_def)

lemma send_packets_all:
  assumes "\<And>log packet. sock_send log packet = Inr (count packet)"
  shows "send_packets sock_send self frames =
         (Inr (), self\<lparr>txb := txb self + sum_list (map count frames),
                        sock_sent := sock_sent self @ frames\<rparr>)"
proof (induction frames arbitrary: self)
  case Nil
  then show ?case by simp
next
  case (Cons f frames)
  have "send_packets sock_send self (f # frames) =
        send_packets sock_send
          (self\<lparr>txb := txb self + count f, sock_sent := sock_sent self @ [f]\<rparr>) frames"
    by (simp add: assms [of "sock_sent self" f])
  then show ?case by (simp add: Cons.IH add.assoc)
qed

section \<open>Facts about \<open>range\<close>, the fragments and their reassembly\<close>

lemma div_plus_self: "0 < (m::nat) \<Longrightarrow> (k + m) div m = Suc (k div m)"
  using div_add_self2 [of m k] by simp

lemma ceil_div_Suc:
  assumes "0 < m" and "0 < (n::nat)"
  shows "(n + m - 1) div m = Suc ((n - 1) div m)"
proof -
  have e: "n + m - 1 = (n - 1) + m" using assms by arith
  have "((n - 1) + m) div m = Suc ((n - 1) div m)" using assms(1) by (rule div_plus_self)
  then show ?thesis by (simp only: e)
qed

lemma py_range_closed:
  "0 < step \<Longrightarrow>
   py_range start stop step = map (\<lambda>i. start + i * step) [0..<(stop - start + step - 1) div step]"
proof (induction start stop step rule: py_range.induct)
  case (1 start stop step)
  show ?case
  proof (cases "stop \<le> start")
    case True
    with 1(2) show ?thesis by (simp add: py_range.simps)
  next
    case False
    let ?c' = "(stop - (start + step) + step - 1) div step"
    have ih: "py_range (start + step) stop step = map (\<lambda>i. start + step + i * step) [0..<?c']"
      using 1 False by simp
    have c: "(stop - start + step - 1) div step = Suc ?c'"
    proof (cases "stop - start \<le> step")
      case True
      then have "stop - (start + step) = 0" by simp
      moreover have "(stop - start + step - 1) div step = Suc ((stop - start - 1) div step)"
        using 1(2) False by (intro ceil_div_Suc) auto
      moreover have "(stop - start - 1) div step = 0" using True False 1(2) by simp
      ultimately show ?thesis using 1(2) by simp
    next
      case gt: False
      then have e: "stop - start + step - 1 = (stop - (start + step) + step - 1) + step" by arith
      have "((stop - (start + step) + step - 1) + step) div step = Suc ?c'"
        using 1(2) by (rule div_plus_self)
      then show ?thesis by (simp only: e)
    qed
    have "map (\<lambda>i. start + i * step) [0..<Suc ?c'] =
          start # map (\<lambda>i. start + step + i * step) [0..<?c']"
      by (simp add: upt_conv_Cons map_Suc_upt [symmetric] del: upt_Suc add: add.assoc)
    with ih c False 1(2) show ?thesis by (simp add: py_range.simps [of start])
  qed
qed

lemma last_fragment_iff:
  assumes "0 < m" and "0 < (n::nat)" and "i < (n + m - 1) div m"
  shows "n \<le> i * m + m \<longleftrightarrow> i = (n + m - 1) div m - 1"
proof -
  let ?q = "(n - 1) div m"
  have c: "(n + m - 1) div m = Suc ?q" using assms(1,2) by (rule ceil_div_Suc)
  have lo: "?q * m \<le> n - 1" by simp
  have hi: "n - 1 < m + ?q * m" using assms(1) by (rule dividend_less_div_times)
  show ?thesis
  proof (cases "i = ?q")
    case True
    with hi c show ?thesis by simp
  next
    case False
    with assms(3) c have "Suc i \<le> ?q" by simp
    then have "Suc i * m \<le> ?q * m" by (rule mult_le_mono1)
    then have "Suc i * m \<le> n - 1" using lo by (rule order_trans)
    with assms(2) have "i * m + m < n" by simp
    with False c show ?thesis by simp
  qed
qed

lemma fragment_packets_closed:
  assumes "DATA_PAYLOAD_LEN lib - 4 = int m" and "0 < m"
  shows "fragment_packets lib self data =
         Inr (map (\<lambda>i. fragment_packet self data m (i * m)) [0..<(length data + m - 1) div m])"
  using assms by (simp add: fragment_packets_def Let_def py_range_closed comp_def)

lemma foldl_accept_fragments:
  assumes "0 < m" and "stop = length data" and "start < stop"
    and "channel s = channel self" and "mesh_port_num s = mesh_port_num self"
  shows "foldl accept_packet s (map (fragment_packet self data m) (py_range start stop m)) =
         (process_incoming s (concat (map decoded_payload (recv_partial_msg s)) @ drop start data))
           \<lparr>recv_partial_msg := []\<rparr>"
  using assms
proof (induction start stop m arbitrary: s rule: py_range.induct)
  case (1 start stop m)
  have unfold: "py_range start stop m = start # py_range (start + m) stop m"
    using 1(2,4) by (simp add: py_range.simps [of start])
  show ?case
  proof (cases "stop \<le> start + m")
    case True
    then have e: "py_range (start + m) stop m = []" by (simp add: py_range.simps [of "start + m"])
    have "accept_packet s (fragment_packet self data m start) =
          (process_incoming s (concat (map decoded_payload (recv_partial_msg s)) @ drop start data))
           \<lparr>recv_partial_msg := []\<rparr>"
      using True 1(3,5,6)
      by (simp add: accept_packet_def fragment_packet_def Let_def process_incoming_def
          decoded_payload_def slice_def)
    then show ?thesis by (simp add: unfold e)
  next
    case False
    let ?p = "fragment_packet self data m start"
    let ?s = "s\<lparr>recv_partial_msg := recv_partial_msg s @ [?p]\<rparr>"
    have step: "accept_packet s ?p = ?s"
      using False 1(3,5,6) by (simp add: accept_packet_def fragment_packet_def Let_def)
    have pay: "decoded_payload ?p = take m (drop start data)"
      by (simp add: decoded_payload_def fragment_packet_def slice_def)
    have "foldl accept_packet ?s (map (fragment_packet self data m) (py_range (start + m) stop m)) =
          (process_incoming ?s (concat (map decoded_payload (recv_partial_msg ?s)) @ drop (start + m) data))
           \<lparr>recv_partial_msg := []\<rparr>"
      using 1(2,3,4,5,6) False by (intro 1(1)) simp_all
    moreover have "take m (drop start data) @ drop (start + m) data = drop start data"
      by (metis add.commute append_take_drop_id drop_drop)
    ultimately show ?thesis
      by (simp add: unfold step pay process_incoming_def)
  qed
qed

lemma list_all2_split:
  assumes "list_all2 (\<lambda>x y. \<exists>z. A x z \<and> B z y) xs ys"
  shows "\<exists>zs. list_all2 A xs zs \<and> list_all2 B zs ys"
  using assms
proof (induction xs ys rule: list_all2_induct)
  case Nil
  then show ?case by simp
next
  case (Cons x xs y ys)
  then obtain z zs where "A x z" "B z y" "list_all2 A xs zs" "list_all2 B zs ys" by blast
  then have "list_all2 A (x # xs) (z # zs) \<and> list_all2 B (z # zs) (y # ys)" by simp
  then show ?case by blast
qed

lemma decoded_payload_cong:
  "map decoded xs = map decoded ys \<Longrightarrow> map decoded_payload xs = map decoded_payload ys"
proof -
  assume a: "map decoded xs = map decoded ys"
  let ?f = "\<lambda>d. case d of None \<Rightarrow> [] | Some d \<Rightarrow> payload d"
  have e: "map decoded_payload zs = map ?f (map decoded zs)" for zs
    by (induction zs) (simp_all add: decoded_payload_def)
  have "map decoded_payload xs = map ?f (map decoded xs)" by (rule e)
  also have "\<dots> = map ?f (map decoded ys)" by (simp only: a)
  also have "\<dots> = map decoded_payload ys" by (rule e [symmetric])
  finally show ?thesis .
qed

lemma accept_packet_sim:
  assumes "pkt_channel q = pkt_channel p" and "decoded q = decoded p"
    and "map decoded xs = map decoded (recv_partial_msg s)"
  shows "\<exists>ys. accept_packet (s\<lparr>recv_partial_msg := xs\<rparr>) q =
              (accept_packet s p)\<lparr>recv_partial_msg := ys\<rparr> \<and>
              map decoded ys = map decoded (recv_partial_msg (accept_packet s p))"
proof (cases "decoded p")
  case None
  with assms show ?thesis by (intro exI [of _ xs]) (simp add: accept_packet_def)
next
  case (Some d)
  show ?thesis
  proof (cases "pkt_channel p = channel s")
    case False
    with assms Some show ?thesis by (intro exI [of _ xs]) (simp add: accept_packet_def)
  next
    case True
    have pay: "map decoded_payload (xs @ [q]) = map decoded_payload (recv_partial_msg s @ [p])"
      using assms(2,3) by (intro decoded_payload_cong) simp
    show ?thesis
    proof (cases "portnum d = mesh_port_num s + 1")
      case sentinel: True
      have "accept_packet (s\<lparr>recv_partial_msg := xs\<rparr>) q =
            (accept_packet s p)\<lparr>recv_partial_msg := []\<rparr>"
        using assms(1,2) Some True sentinel pay
        by (simp add: accept_packet_def Let_def process_incoming_def)
      moreover have "recv_partial_msg (accept_packet s p) = []"
        using Some True sentinel by (simp add: accept_packet_def Let_def process_incoming_def)
      ultimately show ?thesis by (intro exI [of _ "[]"]) simp
    next
      case False
      have "accept_packet (s\<lparr>recv_partial_msg := xs\<rparr>) q =
            (accept_packet s p)\<lparr>recv_partial_msg := xs @ [q]\<rparr>"
        using assms(1,2) Some True False by (simp add: accept_packet_def Let_def)
      moreover have "recv_partial_msg (accept_packet s p) = recv_partial_msg s @ [p]"
        using Some True False by (simp add: accept_packet_def Let_def)
      ultimately show ?thesis using assms(2,3) by (intro exI [of _ "xs @ [q]"]) simp
    qed
  qed
qed

lemma foldl_accept_sim:
  assumes "list_all2 (\<lambda>q p. pkt_channel q = pkt_channel p \<and> decoded q = decoded p) qs ps"
    and "map decoded xs = map decoded (recv_partial_msg s)"
  shows "\<exists>ys. foldl accept_packet (s\<lparr>recv_partial_msg := xs\<rparr>) qs =
              (foldl accept_packet s ps)\<lparr>recv_partial_msg := ys\<rparr> \<and>
              map decoded ys = map decoded (recv_partial_msg (foldl accept_packet s ps))"
  using assms
proof (induction qs ps arbitrary: s xs rule: list_all2_induct)
  case Nil
  then show ?case by (intro exI [of _ xs]) simp
next
  case (Cons q qs p ps)
  from Cons.hyps(1) Cons.prems obtain ys where
    ys: "accept_packet (s\<lparr>recv_partial_msg := xs\<rparr>) q = (accept_packet s p)\<lparr>recv_partial_msg := ys\<rparr>"
    and m: "map decoded ys = map decoded (recv_partial_msg (accept_packet s p))"
    using accept_packet_sim [of q p xs s] by blast
  from Cons.IH [OF m] show ?case by (simp add: ys)
qed

section \<open>Facts about the reconnect loop\<close>

lemma reconnect_port_fail_step:
  assumes "\<not> online self" and "connect (open_attempts self) = Some e"
  shows "reconnect_port lib connect self =
         reconnect_port lib connect
           (self\<lparr>slept_ms := slept_ms self + 5000, open_attempts := open_attempts self + 1\<rparr>)"
  using assms by (subst reconnect_port.simps) (simp add: open_port_def sleep_def Let_def)

lemma reconnect_port_online:
  "online self \<Longrightarrow> reconnect_port lib connect self = Some (Inr (), self)"
  by (subst reconnect_port.simps) simp

lemma reconnect_port_success_step:
  assumes "\<not> online self" and "connect (open_attempts self) = None"
  shows "reconnect_port lib connect self =
         Some (Inr (), self\<lparr>slept_ms := slept_ms self + 5000 + 500,
                             open_attempts := open_attempts self + 1,
                             sock_sent := sock_sent self @ [request_mesh_config_info_packet lib],
                             threads_started := threads_started self + 1,
                             online := True\<rparr>)"
proof -
  let ?t = "self\<lparr>slept_ms := slept_ms self + 5000 + 500,
                             open_attempts := open_attempts self + 1,
                             sock_sent := sock_sent self @ [request_mesh_config_info_packet lib],
                             threads_started := threads_started self + 1,
                             online := True\<rparr>"
  obtain s' where op: "open_port lib connect (sleep 5000 self) = (Inr (), s')"
    using assms(2) by (simp add: open_port_def sleep_def Let_def)
  have cd: "configure_device s' = ?t"
    using op assms(2)
    by (intro iface.equality) (auto simp: open_port_def sleep_def configure_device_def Let_def)
  have "reconnect_port lib connect self = reconnect_port lib connect ?t"
    using assms(1) by (subst reconnect_port.simps) (simp add: op cd)
  also have "\<dots> = Some (Inr (), ?t)"
    by (rule reconnect_port_online) simp
  finally show ?thesis .
qed

lemma reconnect_port_after_failures:
  assumes "\<not> online self" and "\<forall>i<n. connect (open_attempts self + i) \<noteq> None"
    and "connect (open_attempts self + n) = None"
  shows "reconnect_port lib connect self =
         Some (Inr (), self\<lparr>slept_ms := slept_ms self + (n + 1) * 5000 + 500,
                             open_attempts := open_attempts self + n + 1,
                             sock_sent := sock_sent self @ [request_mesh_config_info_packet lib],
                             threads_started := threads_started self + 1,
                             online := True\<rparr>)"
  using assms
proof (induction n arbitrary: self)
  case 0
  then show ?case using reconnect_port_success_step [of self connect lib] by simp
next
  case (Suc n)
  from Suc.prems(2) have "connect (open_attempts self + 0) \<noteq> None" by blast
  then obtain e where e: "connect (open_attempts self) = Some e" by auto
  let ?s = "self\<lparr>slept_ms := slept_ms self + 5000, open_attempts := open_attempts self + 1\<rparr>"
  have step: "reconnect_port lib connect self = reconnect_port lib connect ?s"
    using Suc.prems(1) e by (rule reconnect_port_fail_step)
  have 1: "\<not> online ?s" using Suc.prems(1) by simp
  have 2: "\<forall>i<n. connect (open_attempts ?s + i) \<noteq> None"
  proof (intro allI impI)
    fix i assume "i < n"
    then have "Suc i < Suc n" by simp
    with Suc.prems(2) have "connect (open_attempts self + Suc i) \<noteq> None" by blast
    then show "connect (open_attempts ?s + i) \<noteq> None" by simp
  qed
  have 3: "connect (open_attempts ?s + n) = None" using Suc.prems(3) by simp
  have same: "?s\<lparr>slept_ms := slept_ms ?s + (n + 1) * 5000 + 500,
                 open_attempts := open_attempts ?s + n + 1,
                 sock_sent := sock_sent ?s @ [request_mesh_config_info_packet lib],
                 threads_started := threads_started ?s + 1,
                 online := True\<rparr> =
              self\<lparr>slept_ms := slept_ms self + (Suc n + 1) * 5000 + 500,
                   open_attempts := open_attempts self + Suc n + 1,
                   sock_sent := sock_sent self @ [request_mesh_config_info_packet lib],
                   threads_started := threads_started self + 1,
                   online := True\<rparr>"
    by (rule iface.equality) simp_all
  show ?case
    by (simp only: step Suc.IH [OF 1 2 3] same)
qed

lemma reconnect_port_no_error:
  assumes "reconnect_port lib connect self = Some y"
  shows "fst y = Inr () \<and> online (snd y)"
proof (rule reconnect_port.raw_induct
    [where P = "\<lambda>lib connect self y. fst y = Inr () \<and> online (snd y)", OF _ assms])
  fix rp :: "meshtastic \<Rightarrow> (nat \<Rightarrow> error option) \<Rightarrow> iface \<Rightarrow> ((error + unit) \<times> iface) option"
  fix lib connect self y
  assume IH: "\<And>lib connect self y. rp lib connect self = Some y \<Longrightarrow> fst y = Inr () \<and> online (snd y)"
  assume body: "(if \<not> online self
      then case open_port lib connect (sleep 5000 self) of
           (Inl e, self') \<Rightarrow> rp lib connect self'
           | (Inr u, self') \<Rightarrow> rp lib connect (configure_device self')
      else Some (Inr (), self)) = Some y"
  show "fst y = Inr () \<and> online (snd y)"
  proof (cases "online self")
    case True
    with body show ?thesis by auto
  next
    case False
    with body show ?thesis
      by (auto split: prod.splits sum.splits dest: IH)
  qed
qed

lemma reconnect_port_needs_success:
  assumes "reconnect_port lib connect self = Some y"
  shows "(online self \<and> snd y = self) \<or>
         (\<not> online self \<and>
          (\<exists>i \<ge> open_attempts self. connect i = None \<and> open_attempts (snd y) = i + 1))"
proof (rule reconnect_port.raw_induct
    [where P = "\<lambda>lib connect self y.
       (online self \<and> snd y = self) \<or>
       (\<not> online self \<and>
        (\<exists>i \<ge> open_attempts self. connect i = None \<and> open_attempts (snd y) = i + 1))",
     OF _ assms])
  fix rp :: "meshtastic \<Rightarrow> (nat \<Rightarrow> error option) \<Rightarrow> iface \<Rightarrow> ((error + unit) \<times> iface) option"
  fix lib connect self y
  assume IH: "\<And>lib connect self y. rp lib connect self = Some y \<Longrightarrow>
     (online self \<and> snd y = self) \<or>
     (\<not> online self \<and>
      (\<exists>i \<ge> open_attempts self. connect i = None \<and> open_attempts (snd y) = i + 1))"
  assume body: "(if \<not> online self
      then case open_port lib connect (sleep 5000 self) of
           (Inl e, self') \<Rightarrow> rp lib connect self'
           | (Inr u, self') \<Rightarrow> rp lib connect (configure_device self')
      else Some (Inr (), self)) = Some y"
  show "(online self \<and> snd y = self) \<or>
     (\<not> online self \<and>
      (\<exists>i \<ge> open_attempts self. connect i = None \<and> open_attempts (snd y) = i + 1))"
  proof (cases "online self")
    case True
    with body show ?thesis by auto
  next
    case False
    show ?thesis
    proof (cases "connect (open_attempts self)")
      case None
      let ?s = "snd (open_port lib connect (sleep 5000 self))"
      have op: "open_port lib connect (sleep 5000 self) = (Inr (), ?s)"
        using None by (simp add: open_port_def sleep_def Let_def)
      have s: "online (configure_device ?s)"
        "open_attempts (configure_device ?s) = open_attempts self + 1"
        using None by (simp_all add: configure_device_def open_port_def sleep_def Let_def)
      have "rp lib connect (configure_device ?s) = Some y"
        using body False by (subst (asm) op) simp
      from IH [OF this] s have "open_attempts (snd y) = open_attempts self + 1" by auto
      with None False show ?thesis by auto
    next
      case (Some e)
      let ?s = "snd (open_port lib connect (sleep 5000 self))"
      have op: "open_port lib connect (sleep 5000 self) = (Inl e, ?s)"
        using Some by (simp add: open_port_def sleep_def Let_def)
      have s: "\<not> online ?s" "open_attempts ?s = open_attempts self + 1"
        using Some False by (simp_all add: open_port_def sleep_def Let_def)
      have "rp lib connect ?s = Some y"
        using body False by (subst (asm) op) simp
      from IH [OF this] s obtain i where "i \<ge> open_attempts self + 1" "connect i = None"
        "open_attempts (snd y) = i + 1" by auto
      then have "\<exists>i \<ge> open_attempts self. connect i = None \<and> open_attempts (snd y) = i + 1"
        by (intro exI [of _ i]) simp
      with False show ?thesis by simp
    qed
  qed
qed

section \<open>The decoder always returns\<close>

text \<open>C6: every call of \<open>_decode_mesh_packets\<close> returns, and an iteration of its loop that
  goes round again has a strictly shorter buffer: it dropped exactly one leading byte when
  the first two bytes are not the magic pair, and otherwise removed one whole frame (header
  and payload) and appended one packet.\<close>

theorem decode_mesh_packets_terminates:
  "(\<exists>r. decode_mesh_packets lib self data = Some r) \<and>
   (length buf > 4 \<and> decode_iter (FromString lib) buf result = Continue buf' result' \<longrightarrow>
      length buf' < length buf \<and>
      (if buf ! 0 = MT_MAGIC_0 \<and> buf ! 1 = MT_MAGIC_1
       then \<exists>packet. buf' = drop (4 + (push_bit 8 (unat (buf ! 2)) OR unat (buf ! 3))) buf \<and>
              4 + (push_bit 8 (unat (buf ! 2)) OR unat (buf ! 3)) \<le> length buf \<and>
              result' = result @ [packet]
       else buf' = drop 1 buf \<and> result' = result))"
proof (intro conjI impI)
  show "\<exists>r. decode_mesh_packets lib self data = Some r"
  proof (cases "bytes_find (recvbuf self @ data) MT_MAGIC_0 < 0")
    case True
    then show ?thesis by (simp add: decode_mesh_packets_def Let_def)
  next
    case False
    obtain r b where "decode_loop (FromString lib)
        (if bytes_find (recvbuf self @ data) MT_MAGIC_0 > 0
         then drop (nat (bytes_find (recvbuf self @ data) MT_MAGIC_0)) (recvbuf self @ data)
         else recvbuf self @ data) [] = Some (r, b)"
      using decode_loop_terminates by (metis surj_pair)
    with False show ?thesis by (simp add: decode_mesh_packets_def Let_def)
  qed
next
  assume a: "length buf > 4 \<and> decode_iter (FromString lib) buf result = Continue buf' result'"
  then have "buf \<noteq> []" by auto
  with a show "length buf' < length buf" by (blast intro: decode_iter_progress)
  from a show "if buf ! 0 = MT_MAGIC_0 \<and> buf ! 1 = MT_MAGIC_1
       then \<exists>packet. buf' = drop (4 + (push_bit 8 (unat (buf ! 2)) OR unat (buf ! 3))) buf \<and>
              4 + (push_bit 8 (unat (buf ! 2)) OR unat (buf ! 3)) \<le> length buf \<and>
              result' = result @ [packet]
       else buf' = drop 1 buf \<and> result' = result"
    by (auto simp: decode_iter_def Let_def split: if_splits option.splits)
qed

theorem decode_mesh_packets_terminates_witness:
  "(\<exists>r. decode_mesh_packets (example_lib 8) example_iface [0x94, 0xc3, 0, 5, 2, 2, 1, 1, 7] = Some r) \<and>
   length [0x94, 0xc3, 0, 5, 2, 2, 1, 1, 7, 9 :: byte] > 4 \<and>
   decode_iter (FromString (example_lib 8)) [0x94, 0xc3, 0, 5, 2, 2, 1, 1, 7, 9] []
     = Continue [9] [\<lparr>pkt_to = MESH_DEST_ADDR, pkt_id = 0, pkt_channel = 2, want_ack = False,
                     decoded = Some \<lparr>payload = [7], portnum = 257\<rparr>\<rparr>] \<and>
   length [9 :: byte] < length [0x94, 0xc3, 0, 5, 2, 2, 1, 1, 7, 9 :: byte]"
proof -
  have h: "decode_iter (FromString (example_lib 8)) [0x94, 0xc3, 0, 5, 2, 2, 1, 1, 7, 9] []
     = Continue [9] [\<lparr>pkt_to = MESH_DEST_ADDR, pkt_id = 0, pkt_channel = 2, want_ack = False,
                     decoded = Some \<lparr>payload = [7], portnum = 257\<rparr>\<rparr>]"
    by (simp add: decode_iter_def example_lib_def example_parse_def slice_def MT_MAGIC_0_def
        MT_MAGIC_1_def Let_def)
  show ?thesis
    using decode_mesh_packets_terminates [of "example_lib 8" example_iface
        "[0x94, 0xc3, 0, 5, 2, 2, 1, 1, 7]" "[0x94, 0xc3, 0, 5, 2, 2, 1, 1, 7, 9]" "[]" "[9]"
        "[\<lparr>pkt_to = MESH_DEST_ADDR, pkt_id = 0, pkt_channel = 2, want_ack = False,
                     decoded = Some \<lparr>payload = [7], portnum = 257\<rparr>\<rparr>]"] h
    by simp
qed

section \<open>Input without a magic pair\<close>

text \<open>C4, as amended: from an empty accumulation buffer, one call of the decoder on an
  input with no occurrence of the magic pair returns the empty list, and the buffer it
  leaves is a suffix, at most four bytes long, of the part of the input that starts at its
  first \<open>0x94\<close> byte; so the buffer is empty when the input has no \<open>0x94\<close> byte.\<close>

theorem decode_no_magic_pair:
  assumes "recvbuf self = []" and "\<not> has_magic_pair data"
  shows "\<exists>pre res.
           decode_mesh_packets lib self data = Some (Inr [], self\<lparr>recvbuf := res\<rparr>) \<and>
           dropWhile (\<lambda>x. x \<noteq> MT_MAGIC_0) data = pre @ res \<and>
           length res \<le> 4"
proof -
  let ?t = "dropWhile (\<lambda>x. x \<noteq> MT_MAGIC_0) data"
  have "decode_mesh_packets lib self data =
          Some (Inr [], self\<lparr>recvbuf := drop (length ?t - 4) ?t\<rparr>)"
    using decode_without_magic_exact [OF assms, of lib] by (simp add: Let_def)
  moreover have "?t = take (length ?t - 4) ?t @ drop (length ?t - 4) ?t" by simp
  moreover have "length (drop (length ?t - 4) ?t) \<le> 4" by simp
  ultimately show ?thesis by blast
qed

text \<open>The theorem at a seven-byte input with a \<open>0x94\<close> in second place.\<close>

theorem decode_no_magic_pair_witness:
  "recvbuf example_iface = [] \<and> \<not> has_magic_pair [7, 0x94, 0, 1, 2, 0xc3, 3] \<and>
   (\<exists>pre res.
      decode_mesh_packets (example_lib 8) example_iface [7, 0x94, 0, 1, 2, 0xc3, 3] =
        Some (Inr [], example_iface\<lparr>recvbuf := res\<rparr>) \<and>
      dropWhile (\<lambda>x. x \<noteq> MT_MAGIC_0) [7, 0x94, 0, 1, 2, 0xc3, 3] = pre @ res \<and>
      length res \<le> 4)"
proof -
  have h1: "recvbuf example_iface = []" by (simp add: example_iface_def)
  have h2: "\<not> has_magic_pair [7, 0x94, 0, 1, 2, 0xc3, 3]"
    by (simp add: MT_MAGIC_0_def MT_MAGIC_1_def)
  from h1 h2 decode_no_magic_pair [OF h1 h2, of "example_lib 8"] show ?thesis by blast
qed

text \<open>C4 as stated fails: five bytes with no magic pair leave four bytes in the buffer.\<close>

theorem decode_no_magic_pair_counterexample:
  "recvbuf example_iface = [] \<and> \<not> has_magic_pair [0x94, 0, 1, 2, 3] \<and>
   decode_mesh_packets (example_lib 8) example_iface [0x94, 0, 1, 2, 3] =
     Some (Inr [], example_iface\<lparr>recvbuf := [0, 1, 2, 3]\<rparr>) \<and>
   recvbuf (example_iface\<lparr>recvbuf := [0, 1, 2, 3]\<rparr>) \<noteq> []"
proof -
  have it: "decode_iter example_parse [0x94, 0, 1, 2, 3] [] = Continue [0, 1, 2, 3] []"
    by (simp add: decode_iter_def MT_MAGIC_0_def MT_MAGIC_1_def)
  have "decode_loop example_parse [0x94, 0, 1, 2, 3] [] = Some (Inr [], [0, 1, 2, 3])"
    by (subst decode_loop.simps) (simp add: it decode_loop_short)
  then show ?thesis
    by (simp add: decode_mesh_packets_def example_iface_def example_lib_def bytes_find_def
        MT_MAGIC_0_def MT_MAGIC_1_def Let_def)
qed

section \<open>A frame with an empty inner message\<close>

text \<open>C10: the frame with a zero length field and no inner message is the four bytes
  \<open>0x94 0xC3 0 0\<close>. A call whose input ends with it, after any number of complete frames
  with non-empty inner messages, returns the packets of those frames only and leaves the
  four bytes in the buffer. A later call with no new byte returns nothing and leaves them
  again; a later call with at least one new byte parses the empty inner message first, so
  that its packet heads the list which that call returns.\<close>

theorem zero_length_frame_waits:
  "wire_frame [] = [MT_MAGIC_0, MT_MAGIC_1, 0, 0] \<and>
   (list_all2 (\<lambda>inner p. inner \<noteq> [] \<and> length inner < 65536 \<and> FromString lib inner = Some p)
      inners ps \<longrightarrow>
      decode_mesh_packets lib (self\<lparr>recvbuf := []\<rparr>) (concat (map wire_frame inners) @ wire_frame []) =
        Some (Inr ps, self\<lparr>recvbuf := wire_frame []\<rparr>)) \<and>
   decode_mesh_packets lib (self\<lparr>recvbuf := wire_frame []\<rparr>) [] =
     Some (Inr [], self\<lparr>recvbuf := wire_frame []\<rparr>) \<and>
   (data \<noteq> [] \<and> FromString lib [] = Some p \<longrightarrow>
      decode_mesh_packets lib (self\<lparr>recvbuf := wire_frame []\<rparr>) data =
        (case decode_loop (FromString lib) data [p] of
           None \<Rightarrow> None
         | Some (r, buf') \<Rightarrow> Some (r, self\<lparr>recvbuf := buf'\<rparr>)) \<and>
      (\<forall>packets self'.
         decode_mesh_packets lib (self\<lparr>recvbuf := wire_frame []\<rparr>) data = Some (Inr packets, self')
         \<longrightarrow> (\<exists>ys. packets = p # ys)))"
proof (intro conjI impI)
  show "wire_frame [] = [MT_MAGIC_0, MT_MAGIC_1, 0, 0]" by (rule wire_frame_empty)
next
  assume a: "list_all2 (\<lambda>inner p. inner \<noteq> [] \<and> length inner < 65536 \<and> FromString lib inner = Some p) inners ps"
  let ?buf = "concat (map wire_frame inners) @ wire_frame []"
  have hd: "\<exists>xs. ?buf = MT_MAGIC_0 # xs"
    by (cases inners) (auto simp: wire_frame_def Let_def)
  have "decode_loop (FromString lib) ?buf [] = decode_loop (FromString lib) (wire_frame []) ([] @ ps)"
    using a by (intro decode_loop_frames) simp
  also have "\<dots> = Some (Inr ps, wire_frame [])"
    by (simp add: decode_loop_short wire_frame_length)
  finally have loop: "decode_loop (FromString lib) ?buf [] = Some (Inr ps, wire_frame [])" .
  from hd obtain xs where xs: "?buf = MT_MAGIC_0 # xs" by blast
  then have "recvbuf (self\<lparr>recvbuf := []\<rparr>) @ ?buf = MT_MAGIC_0 # xs" by simp
  from decode_mesh_packets_at_magic [OF this, of lib] loop xs
  show "decode_mesh_packets lib (self\<lparr>recvbuf := []\<rparr>) ?buf = Some (Inr ps, self\<lparr>recvbuf := wire_frame []\<rparr>)"
    by simp
next
  have "recvbuf (self\<lparr>recvbuf := wire_frame []\<rparr>) @ [] = MT_MAGIC_0 # [MT_MAGIC_1, 0, 0]"
    by (simp add: wire_frame_empty)
  from decode_mesh_packets_at_magic [OF this, of lib]
  show "decode_mesh_packets lib (self\<lparr>recvbuf := wire_frame []\<rparr>) [] = Some (Inr [], self\<lparr>recvbuf := wire_frame []\<rparr>)"
    by (simp add: decode_loop_short wire_frame_empty)
next
  assume a: "data \<noteq> [] \<and> FromString lib [] = Some p"
  obtain r b where rb: "decode_loop (FromString lib) data [p] = Some (r, b)"
    using decode_loop_terminates by (metis surj_pair)
  have "decode_loop (FromString lib) (wire_frame [] @ data) []
      = decode_loop (FromString lib) data ([] @ [p])"
    using a by (intro decode_loop_frame) auto
  then have loop: "decode_loop (FromString lib) (MT_MAGIC_0 # (MT_MAGIC_1 # 0 # 0 # data)) [] = Some (r, b)"
    using rb by (simp add: wire_frame_empty)
  have "recvbuf (self\<lparr>recvbuf := wire_frame []\<rparr>) @ data = MT_MAGIC_0 # (MT_MAGIC_1 # 0 # 0 # data)"
    by (simp add: wire_frame_empty)
  from decode_mesh_packets_at_magic [OF this, of lib]
  have res: "decode_mesh_packets lib (self\<lparr>recvbuf := wire_frame []\<rparr>) data = Some (r, self\<lparr>recvbuf := b\<rparr>)"
    by (simp add: loop)
  show "decode_mesh_packets lib (self\<lparr>recvbuf := wire_frame []\<rparr>) data =
        (case decode_loop (FromString lib) data [p] of
           None \<Rightarrow> None
         | Some (r, buf') \<Rightarrow> Some (r, self\<lparr>recvbuf := buf'\<rparr>))"
    by (simp add: res rb)
  show "\<forall>packets self'.
         decode_mesh_packets lib (self\<lparr>recvbuf := wire_frame []\<rparr>) data = Some (Inr packets, self')
         \<longrightarrow> (\<exists>ys. packets = p # ys)"
  proof (intro allI impI)
    fix packets self'
    assume "decode_mesh_packets lib (self\<lparr>recvbuf := wire_frame []\<rparr>) data = Some (Inr packets, self')"
    with res rb have "decode_loop (FromString lib) data [p] = Some (Inr packets, b)" by simp
    from decode_loop_result_prefix [OF this] show "\<exists>ys. packets = p # ys" by simp
  qed
qed

text \<open>The theorem with one five-byte frame before the empty one, and one further byte.\<close>

theorem zero_length_frame_waits_witness:
  "list_all2 (\<lambda>inner p. inner \<noteq> [] \<and> length inner < 65536 \<and>
       FromString (example_lib 8) inner = Some p)
     [[2, 2, 1, 1, 7]]
     [\<lparr>pkt_to = MESH_DEST_ADDR, pkt_id = 0, pkt_channel = 2, want_ack = False,
       decoded = Some \<lparr>payload = [7], portnum = 257\<rparr>\<rparr>] \<and>
   decode_mesh_packets (example_lib 8) (example_iface\<lparr>recvbuf := []\<rparr>)
     (concat (map wire_frame [[2, 2, 1, 1, 7]]) @ wire_frame []) =
     Some (Inr [\<lparr>pkt_to = MESH_DEST_ADDR, pkt_id = 0, pkt_channel = 2, want_ack = False,
                 decoded = Some \<lparr>payload = [7], portnum = 257\<rparr>\<rparr>],
           example_iface\<lparr>recvbuf := wire_frame []\<rparr>) \<and>
   [MT_MAGIC_0] \<noteq> [] \<and>
   FromString (example_lib 8) [] =
     Some \<lparr>pkt_to = 0, pkt_id = 0, pkt_channel = 0, want_ack = False, decoded = None\<rparr> \<and>
   decode_mesh_packets (example_lib 8) (example_iface\<lparr>recvbuf := wire_frame []\<rparr>) [MT_MAGIC_0] =
     Some (Inr [\<lparr>pkt_to = 0, pkt_id = 0, pkt_channel = 0, want_ack = False, decoded = None\<rparr>],
           example_iface\<lparr>recvbuf := [MT_MAGIC_0]\<rparr>)"
proof -
  have h1: "list_all2 (\<lambda>inner p. inner \<noteq> [] \<and> length inner < 65536 \<and>
       FromString (example_lib 8) inner = Some p)
     [[2, 2, 1, 1, 7]]
     [\<lparr>pkt_to = MESH_DEST_ADDR, pkt_id = 0, pkt_channel = 2, want_ack = False,
       decoded = Some \<lparr>payload = [7], portnum = 257\<rparr>\<rparr>]"
    by (simp add: example_lib_def example_parse_def)
  have h2: "FromString (example_lib 8) [] =
     Some \<lparr>pkt_to = 0, pkt_id = 0, pkt_channel = 0, want_ack = False, decoded = None\<rparr>"
    by (simp add: example_lib_def example_parse_def)
  have l: "decode_loop (FromString (example_lib 8)) [MT_MAGIC_0]
             [\<lparr>pkt_to = 0, pkt_id = 0, pkt_channel = 0, want_ack = False, decoded = None\<rparr>] =
           Some (Inr [\<lparr>pkt_to = 0, pkt_id = 0, pkt_channel = 0, want_ack = False, decoded = None\<rparr>],
                 [MT_MAGIC_0])"
    by (simp add: decode_loop_short)
  show ?thesis
    using zero_length_frame_waits [of "example_lib 8" "[[2, 2, 1, 1, 7]]"
        "[\<lparr>pkt_to = MESH_DEST_ADDR, pkt_id = 0, pkt_channel = 2, want_ack = False,
           decoded = Some \<lparr>payload = [7], portnum = 257\<rparr>\<rparr>]" example_iface "[MT_MAGIC_0]"
        "\<lparr>pkt_to = 0, pkt_id = 0, pkt_channel = 0, want_ack = False, decoded = None\<rparr>"]
      h1 h2 l
    by (simp add: wire_frame_empty)
qed

section \<open>One frame fed in two pieces\<close>

text \<open>C5, evaluated where it fails: the four-byte frame with an empty inner message, cut
  at any offset and fed in two calls from an empty buffer, yields no packet at all; the
  whole frame stays in the buffer. (For a frame whose inner message is not empty,
  \<open>split_frame_decodes_once\<close> gives exactly one packet at every offset, and
  \<open>decode_loop_partial_frame\<close> says that a proper prefix is kept and nothing emitted.)\<close>

theorem split_zero_length_frame_yields_nothing:
  "recvbuf self = [] \<Longrightarrow> k \<le> length (wire_frame []) \<Longrightarrow>
   feed_split lib self (wire_frame []) k = Some (Inr [], self\<lparr>recvbuf := wire_frame []\<rparr>)"
proof -
  assume a: "recvbuf self = []"
  have p: "decode_loop (FromString lib) (take k (wire_frame [])) [] = Some (Inr [], take k (wire_frame []))"
    by (simp add: decode_loop_short wire_frame_length)
  have w: "decode_loop (FromString lib) (wire_frame []) [] = Some (Inr [], wire_frame [])"
    by (simp add: decode_loop_short wire_frame_length)
  show ?thesis
    using a wire_frame_hd p w by (rule feed_split_whole)
qed

text \<open>The theorem cut after the magic pair; the parser accepts the empty message.\<close>

theorem split_zero_length_frame_yields_nothing_witness:
  "recvbuf example_iface = [] \<and> 2 \<le> length (wire_frame []) \<and>
   FromString (example_lib 8) [] \<noteq> None \<and>
   feed_split (example_lib 8) example_iface [MT_MAGIC_0, MT_MAGIC_1, 0, 0] 2 =
     Some (Inr [], example_iface\<lparr>recvbuf := [MT_MAGIC_0, MT_MAGIC_1, 0, 0]\<rparr>)"
proof -
  have h1: "recvbuf example_iface = []" by (simp add: example_iface_def)
  have h2: "2 \<le> length (wire_frame [])" by (simp add: wire_frame_def)
  show ?thesis
    using split_zero_length_frame_yields_nothing [OF h1 h2, of "example_lib 8"] h1 h2
    by (simp add: wire_frame_empty example_lib_def example_parse_def)
qed

section \<open>The channel filter of the reassembly\<close>

text \<open>C7: a decoded packet without a \<open>decoded\<close> part, or on a channel other than the
  configured one, leaves the interface as it was, whatever its port number: nothing is
  appended to the partial message and nothing is delivered. The same holds for a whole
  list of such packets run through the loop.\<close>

theorem reassembly_ignores_foreign_packets:
  "(decoded packet = None \<or> pkt_channel packet \<noteq> channel self \<longrightarrow>
      accept_packet self packet = self) \<and>
   ((\<forall>p \<in> set packets. decoded p = None \<or> pkt_channel p \<noteq> channel self) \<longrightarrow>
      foldl accept_packet self packets = self)"
proof (intro conjI impI)
  have one: "accept_packet self p = self" if "decoded p = None \<or> pkt_channel p \<noteq> channel self" for p
    using that by (auto simp: accept_packet_def split: option.splits)
  show "accept_packet self packet = self"
    if "decoded packet = None \<or> pkt_channel packet \<noteq> channel self"
    using that by (rule one)
  show "foldl accept_packet self packets = self"
    if "\<forall>p \<in> set packets. decoded p = None \<or> pkt_channel p \<noteq> channel self"
    using that by (induction packets) (simp_all add: one)
qed

text \<open>The theorem for a packet on channel 5 carrying the sentinel port number 257, at an
  interface on channel 2 with port base 256.\<close>

theorem reassembly_ignores_foreign_packets_witness:
  "(decoded \<lparr>pkt_to = MESH_DEST_ADDR, pkt_id = 0, pkt_channel = 5, want_ack = False,
             decoded = Some \<lparr>payload = [1], portnum = 257\<rparr>\<rparr> = None \<or>
    pkt_channel \<lparr>pkt_to = MESH_DEST_ADDR, pkt_id = 0, pkt_channel = 5, want_ack = False,
             decoded = Some \<lparr>payload = [1], portnum = 257\<rparr>\<rparr> \<noteq> channel example_iface) \<and>
   mesh_port_num example_iface + 1 = 257 \<and>
   accept_packet example_iface
     \<lparr>pkt_to = MESH_DEST_ADDR, pkt_id = 0, pkt_channel = 5, want_ack = False,
      decoded = Some \<lparr>payload = [1], portnum = 257\<rparr>\<rparr> = example_iface \<and>
   foldl accept_packet example_iface
     [\<lparr>pkt_to = MESH_DEST_ADDR, pkt_id = 0, pkt_channel = 5, want_ack = False,
       decoded = Some \<lparr>payload = [1], portnum = 257\<rparr>\<rparr>,
      \<lparr>pkt_to = 0, pkt_id = 0, pkt_channel = 2, want_ack = False, decoded = None\<rparr>] = example_iface"
  using reassembly_ignores_foreign_packets [of
      "\<lparr>pkt_to = MESH_DEST_ADDR, pkt_id = 0, pkt_channel = 5, want_ack = False,
        decoded = Some \<lparr>payload = [1], portnum = 257\<rparr>\<rparr>" example_iface
      "[\<lparr>pkt_to = MESH_DEST_ADDR, pkt_id = 0, pkt_channel = 5, want_ack = False,
         decoded = Some \<lparr>payload = [1], portnum = 257\<rparr>\<rparr>,
        \<lparr>pkt_to = 0, pkt_id = 0, pkt_channel = 2, want_ack = False, decoded = None\<rparr>]"]
  by (simp add: example_iface_def accept_packet_def)

section \<open>Sending\<close>

text \<open>C8: when the interface is not online, \<open>process_outgoing\<close> returns without an
  exception and leaves the whole interface, with its counters and the log of sent buffers,
  unchanged. When it is online and no \<open>send\<close> raises, the frames of
  \<open>_create_mesh_packets\<close> are handed to the socket one after the other, in order, and
  \<open>txb\<close> grows by the sum of the counts that \<open>send\<close> returned.\<close>

theorem process_outgoing_online_gate:
  "process_outgoing lib sock_send (self\<lparr>online := False\<rparr>) data = (Inr (), self\<lparr>online := False\<rparr>) \<and>
   (create_mesh_packets lib self data = Inr frames \<and>
    (\<forall>log packet. sock_send log packet = Inr (count packet)) \<longrightarrow>
      process_outgoing lib sock_send (self\<lparr>online := True\<rparr>) data =
        (Inr (), self\<lparr>online := True,
                       txb := txb self + sum_list (map count frames),
                       sock_sent := sock_sent self @ frames\<rparr>))"
proof (intro conjI impI)
  show "process_outgoing lib sock_send (self\<lparr>online := False\<rparr>) data = (Inr (), self\<lparr>online := False\<rparr>)"
    by (simp add: process_outgoing_def)
next
  assume a: "create_mesh_packets lib self data = Inr frames \<and>
    (\<forall>log packet. sock_send log packet = Inr (count packet))"
  then have "send_packets sock_send (self\<lparr>online := True\<rparr>) frames =
        (Inr (), self\<lparr>online := True,
                       txb := txb self + sum_list (map count frames),
                       sock_sent := sock_sent self @ frames\<rparr>)"
    by (subst send_packets_all [of sock_send count]) simp_all
  with a show "process_outgoing lib sock_send (self\<lparr>online := True\<rparr>) data =
        (Inr (), self\<lparr>online := True,
                       txb := txb self + sum_list (map count frames),
                       sock_sent := sock_sent self @ frames\<rparr>)"
    by (simp add: process_outgoing_def)
qed

text \<open>The theorem for a three-byte payload with fragments of two bytes, on a socket that
  accepts every buffer whole.\<close>

theorem process_outgoing_online_gate_witness:
  "create_mesh_packets (example_lib 6) example_iface [10, 11, 12] =
     Inr [[0x94, 0xc3, 0, 6, 1, 2, 1, 0, 10, 11], [0x94, 0xc3, 0, 5, 1, 2, 1, 1, 12]] \<and>
   (\<forall>log packet. (\<lambda>log packet. Inr (length packet)) (log :: bytes list) (packet :: bytes)
      = (Inr (length packet) :: error + nat)) \<and>
   process_outgoing (example_lib 6) (\<lambda>log packet. Inr (length packet))
       (example_iface\<lparr>online := True\<rparr>) [10, 11, 12] =
     (Inr (), example_iface\<lparr>online := True, txb := 19,
        sock_sent := [[0x94, 0xc3, 0, 6, 1, 2, 1, 0, 10, 11], [0x94, 0xc3, 0, 5, 1, 2, 1, 1, 12]]\<rparr>)"
proof -
  have c: "create_mesh_packets (example_lib 6) example_iface [10, 11, 12] =
     Inr [[0x94, 0xc3, 0, 6, 1, 2, 1, 0, 10, 11], [0x94, 0xc3, 0, 5, 1, 2, 1, 1, 12]]"
  proof -
    have w1: "wire_frame [1, 2, 1, 0, 10, 11] = [0x94, 0xc3, 0, 6, 1, 2, 1, 0, 10, 11]"
      by (simp add: wire_frame_small [where n = 6] MT_MAGIC_0_def MT_MAGIC_1_def)
    have w2: "wire_frame [1, 2, 1, 1, 12] = [0x94, 0xc3, 0, 5, 1, 2, 1, 1, 12]"
      by (simp add: wire_frame_small [where n = 5] MT_MAGIC_0_def MT_MAGIC_1_def)
    show ?thesis
      by (simp add: create_mesh_packets_def fragment_packets_def fragment_packet_def Let_def
          example_lib_def example_iface_def example_serialize_def slice_def
          py_range.simps w1 w2)
  qed
  show ?thesis
    using process_outgoing_online_gate [of "example_lib 6" "\<lambda>log packet. Inr (length packet)"
        example_iface "[10, 11, 12]"
        "[[0x94, 0xc3, 0, 6, 1, 2, 1, 0, 10, 11], [0x94, 0xc3, 0, 5, 1, 2, 1, 1, 12]]" length] c
    by (simp add: example_iface_def)
qed

section \<open>The empty payload\<close>

text \<open>C2, as amended: for the empty payload \<open>_create_mesh_packets\<close> returns the empty
  list, no frame at all (and \<open>range\<close> raises when the fragment size is 0).\<close>

theorem create_mesh_packets_empty_payload:
  "create_mesh_packets lib self [] = (if DATA_PAYLOAD_LEN lib = 4 then Inl ValueError else Inr [])"
  by (simp add: create_mesh_packets_def fragment_packets_def Let_def)

text \<open>The theorem at \<open>DATA_PAYLOAD_LEN = 233\<close>.\<close>

theorem create_mesh_packets_empty_payload_witness:
  "create_mesh_packets (example_lib 233) example_iface [] = Inr []"
  using create_mesh_packets_empty_payload [of "example_lib 233" example_iface]
  by (simp add: example_lib_def)

text \<open>C2 as stated fails: the result is not the one frame of an empty sentinel fragment.\<close>

theorem create_mesh_packets_empty_payload_counterexample:
  "create_mesh_packets (example_lib 233) example_iface [] = Inr [] \<and>
   create_mesh_packets (example_lib 233) example_iface [] \<noteq>
     Inr [wire_frame (SerializeToString (example_lib 233) (fragment_packet example_iface [] 229 0))]"
  by (simp add: create_mesh_packets_def fragment_packets_def Let_def example_lib_def)

section \<open>The fragments of a non-empty payload\<close>

text \<open>C3: with a positive fragment size \<open>MAX_LEN = DATA_PAYLOAD_LEN - 4\<close>, a non-empty
  payload is encoded into \<open>ceil(len(payload) / MAX_LEN)\<close> frames, the serialized logical
  packets in order: fragment \<open>i\<close> carries the bytes from offset \<open>i * MAX_LEN\<close> on, at most
  \<open>MAX_LEN\<close> of them, on the interface's channel; every fragment but the last has the
  port number \<open>mesh_port_num\<close>, the last one \<open>mesh_port_num + 1\<close>. A payload of exactly
  \<open>MAX_LEN\<close> bytes gives a single fragment with the port number \<open>mesh_port_num + 1\<close>, and
  a payload of 600 bytes with fragments of 200 gives three fragments, the first two with
  \<open>mesh_port_num\<close> and the third with \<open>mesh_port_num + 1\<close>.\<close>

theorem create_mesh_packets_fragments:
  assumes "data \<noteq> []" and "DATA_PAYLOAD_LEN lib - 4 = int MAX_LEN" and "0 < MAX_LEN"
  shows "(\<exists>packets.
      fragment_packets lib self data = Inr packets \<and>
      create_mesh_packets lib self data =
        Inr (map (\<lambda>p. wire_frame (SerializeToString lib p)) packets) \<and>
      length packets = (length data + MAX_LEN - 1) div MAX_LEN \<and>
      (\<forall>i < length packets.
         packets ! i =
           logical_packet (channel self)
             (if i = length packets - 1 then mesh_port_num self + 1 else mesh_port_num self)
             (take MAX_LEN (drop (i * MAX_LEN) data)))) \<and>
    (length data1 = MAX_LEN \<longrightarrow>
       fragment_packets lib self data1 =
         Inr [logical_packet (channel self) (mesh_port_num self + 1) data1]) \<and>
    (length data3 = 600 \<and> MAX_LEN = 200 \<longrightarrow>
       fragment_packets lib self data3 =
         Inr [logical_packet (channel self) (mesh_port_num self) (take 200 data3),
              logical_packet (channel self) (mesh_port_num self) (take 200 (drop 200 data3)),
              logical_packet (channel self) (mesh_port_num self + 1) (drop 400 data3)])"
proof (intro conjI impI)
  let ?c = "(length data + MAX_LEN - 1) div MAX_LEN"
  let ?packets = "map (\<lambda>i. fragment_packet self data MAX_LEN (i * MAX_LEN)) [0..<?c]"
  have fp: "fragment_packets lib self data = Inr ?packets"
    using assms(2,3) by (rule fragment_packets_closed)
  have n: "0 < length data" using assms(1) by simp
  have nth: "?packets ! i =
           logical_packet (channel self)
             (if i = length ?packets - 1 then mesh_port_num self + 1 else mesh_port_num self)
             (take MAX_LEN (drop (i * MAX_LEN) data))" if "i < length ?packets" for i
  proof -
    from that have i: "i < ?c" by simp
    have "length data \<le> i * MAX_LEN + MAX_LEN \<longleftrightarrow> i = ?c - 1"
      using assms(3) n i by (rule last_fragment_iff)
    with i show ?thesis by (simp add: fragment_packet_def slice_def)
  qed
  show "\<exists>packets.
      fragment_packets lib self data = Inr packets \<and>
      create_mesh_packets lib self data =
        Inr (map (\<lambda>p. wire_frame (SerializeToString lib p)) packets) \<and>
      length packets = (length data + MAX_LEN - 1) div MAX_LEN \<and>
      (\<forall>i < length packets.
         packets ! i =
           logical_packet (channel self)
             (if i = length packets - 1 then mesh_port_num self + 1 else mesh_port_num self)
             (take MAX_LEN (drop (i * MAX_LEN) data)))"
  proof (intro exI conjI allI impI)
    show "fragment_packets lib self data = Inr ?packets" by (rule fp)
    show "create_mesh_packets lib self data =
        Inr (map (\<lambda>p. wire_frame (SerializeToString lib p)) ?packets)"
      by (simp only: create_mesh_packets_def fp sum.case)
    show "length ?packets = ?c" by simp
    show "?packets ! i =
           logical_packet (channel self)
             (if i = length ?packets - 1 then mesh_port_num self + 1 else mesh_port_num self)
             (take MAX_LEN (drop (i * MAX_LEN) data))" if "i < length ?packets" for i
      using that by (rule nth)
  qed
next
  assume "length data1 = MAX_LEN"
  then show "fragment_packets lib self data1 =
         Inr [logical_packet (channel self) (mesh_port_num self + 1) data1]"
    using assms(2,3)
    by (simp add: fragment_packets_def Let_def py_range.simps [of 0] py_range.simps [of MAX_LEN]
        fragment_packet_def slice_def)
next
  assume "length data3 = 600 \<and> MAX_LEN = 200"
  then show "fragment_packets lib self data3 =
         Inr [logical_packet (channel self) (mesh_port_num self) (take 200 data3),
              logical_packet (channel self) (mesh_port_num self) (take 200 (drop 200 data3)),
              logical_packet (channel self) (mesh_port_num self + 1) (drop 400 data3)]"
    using assms(2)
    by (simp add: fragment_packets_def Let_def py_range.simps [of 0] py_range.simps [of 200]
        py_range.simps [of 400] py_range.simps [of 600] fragment_packet_def slice_def)
qed

text \<open>The theorem at fragment size 200, for payloads of 3, 200 and 600 bytes.\<close>

theorem create_mesh_packets_fragments_witness:
  "[10, 11, 12 :: byte] \<noteq> [] \<and>
   DATA_PAYLOAD_LEN (example_lib 204) - 4 = int 200 \<and>
   (0::nat) < 200 \<and>
   length (replicate 200 (7::byte)) = 200 \<and>
   (length (replicate 600 (7::byte)) = 600 \<and> (200::nat) = 200) \<and>
   (\<exists>packets.
      fragment_packets (example_lib 204) example_iface [10, 11, 12] = Inr packets \<and>
      create_mesh_packets (example_lib 204) example_iface [10, 11, 12] =
        Inr (map (\<lambda>p. wire_frame (SerializeToString (example_lib 204) p)) packets) \<and>
      length packets = (length [10, 11, 12 :: byte] + 200 - 1) div 200 \<and>
      (\<forall>i < length packets.
         packets ! i =
           logical_packet (channel example_iface)
             (if i = length packets - 1 then mesh_port_num example_iface + 1
              else mesh_port_num example_iface)
             (take 200 (drop (i * 200) [10, 11, 12])))) \<and>
   fragment_packets (example_lib 204) example_iface (replicate 200 7) =
     Inr [logical_packet (channel example_iface) (mesh_port_num example_iface + 1)
            (replicate 200 7)] \<and>
   fragment_packets (example_lib 204) example_iface (replicate 600 7) =
     Inr [logical_packet (channel example_iface) (mesh_port_num example_iface)
            (take 200 (replicate 600 7)),
          logical_packet (channel example_iface) (mesh_port_num example_iface)
            (take 200 (drop 200 (replicate 600 7))),
          logical_packet (channel example_iface) (mesh_port_num example_iface + 1)
            (drop 400 (replicate 600 7))]"
proof -
  have h1: "[10, 11, 12 :: byte] \<noteq> []" by simp
  have h2: "DATA_PAYLOAD_LEN (example_lib 204) - 4 = int 200" by (simp add: example_lib_def)
  have h3: "(0::nat) < 200" by simp
  have h4: "length (replicate 200 (7::byte)) = 200" by simp
  have h5: "length (replicate 600 (7::byte)) = 600 \<and> (200::nat) = 200" by simp
  note t = create_mesh_packets_fragments [OF h1 h2 h3, of example_iface "replicate 200 7"
      "replicate 600 7"]
  from t have a: "\<exists>packets.
      fragment_packets (example_lib 204) example_iface [10, 11, 12] = Inr packets \<and>
      create_mesh_packets (example_lib 204) example_iface [10, 11, 12] =
        Inr (map (\<lambda>p. wire_frame (SerializeToString (example_lib 204) p)) packets) \<and>
      length packets = (length [10, 11, 12 :: byte] + 200 - 1) div 200 \<and>
      (\<forall>i < length packets.
         packets ! i =
           logical_packet (channel example_iface)
             (if i = length packets - 1 then mesh_port_num example_iface + 1
              else mesh_port_num example_iface)
             (take 200 (drop (i * 200) [10, 11, 12])))"
    by (rule conjunct1)
  have b: "fragment_packets (example_lib 204) example_iface (replicate 200 7) =
     Inr [logical_packet (channel example_iface) (mesh_port_num example_iface + 1)
            (replicate 200 7)]"
    by (rule t [THEN conjunct2, THEN conjunct1, THEN mp, OF h4])
  have c: "fragment_packets (example_lib 204) example_iface (replicate 600 7) =
     Inr [logical_packet (channel example_iface) (mesh_port_num example_iface)
            (take 200 (replicate 600 7)),
          logical_packet (channel example_iface) (mesh_port_num example_iface)
            (take 200 (drop 200 (replicate 600 7))),
          logical_packet (channel example_iface) (mesh_port_num example_iface + 1)
            (drop 400 (replicate 600 7))]"
    by (rule t [THEN conjunct2, THEN conjunct2, THEN mp, OF h5])
  from h1 h2 h3 h4 h5 a b c show ?thesis by blast
qed

section \<open>Round trip\<close>

text \<open>C1, as amended: for every non-empty payload (so for the lengths 1, \<open>MAX_LEN\<close>,
  \<open>MAX_LEN + 1\<close>, \<open>3 * MAX_LEN\<close>, and \<open>MAX_LEN - 1\<close> when that is not 0) and a positive
  fragment size, \<open>_create_mesh_packets\<close> emits the frames of the payload's logical
  packets; and when these packets come back from the radio, as wire frames whose inner
  \<open>FromRadio\<close> messages (not empty, shorter than 65536 bytes) parse to packets with the
  same channel and the same \<open>decoded\<close> part, the concatenated frames, given in one read to
  the decoder and the reassembly of the same interface with empty buffers, deliver exactly
  one message, the payload itself, and count its bytes in \<open>rxb\<close>; the buffers are empty
  again.\<close>

theorem roundtrip_over_radio:
  assumes "data \<noteq> []" and "DATA_PAYLOAD_LEN lib - 4 = int MAX_LEN" and "0 < MAX_LEN"
    and "recvbuf self = []" and "recv_partial_msg self = []"
    and "fragment_packets lib self data = Inr packets"
    and "list_all2
           (\<lambda>inner p. inner \<noteq> [] \<and> length inner < 65536 \<and>
              (\<exists>q. FromString lib inner = Some q \<and>
                   pkt_channel q = pkt_channel p \<and> decoded q = decoded p))
           inners packets"
  shows "create_mesh_packets lib self data =
           Inr (map (\<lambda>p. wire_frame (SerializeToString lib p)) packets) \<and>
         read_loop_body lib self (concat (map wire_frame inners)) =
           Some (Inr (), self\<lparr>rxb := rxb self + length data, inbound := inbound self @ [data]\<rparr>)"
proof
  show "create_mesh_packets lib self data =
           Inr (map (\<lambda>p. wire_frame (SerializeToString lib p)) packets)"
    by (simp only: create_mesh_packets_def assms(6) sum.case)
next
  let ?t = "self\<lparr>rxb := rxb self + length data, inbound := inbound self @ [data]\<rparr>"
  have packets: "packets = map (fragment_packet self data MAX_LEN) (py_range 0 (length data) MAX_LEN)"
    using assms(2,3,6) by (simp add: fragment_packets_def Let_def)
  have n: "0 < length data" using assms(1) by simp
  let ?A = "\<lambda>inner q. inner \<noteq> [] \<and> length inner < 65536 \<and> FromString lib inner = Some q"
  let ?B = "\<lambda>q p. pkt_channel q = pkt_channel p \<and> decoded q = decoded p"
  have "list_all2 (\<lambda>inner p. \<exists>q. ?A inner q \<and> ?B q p) inners packets"
    using assms(7) by (rule list_all2_mono) blast
  then have "\<exists>qs. list_all2 ?A inners qs \<and> list_all2 ?B qs packets"
    by (rule list_all2_split [where A = ?A and B = ?B])
  then obtain qs where parsed: "list_all2 ?A inners qs" and same: "list_all2 ?B qs packets"
    by (elim exE conjE)
  have "decode_loop (FromString lib) (concat (map wire_frame inners) @ []) []
        = decode_loop (FromString lib) [] ([] @ qs)"
    using parsed by (rule decode_loop_frames)
  then have loop: "decode_loop (FromString lib) (concat (map wire_frame inners)) [] = Some (Inr qs, [])"
    by (simp add: decode_loop_short)
  have "py_range 0 (length data) MAX_LEN = 0 # py_range (0 + MAX_LEN) (length data) MAX_LEN"
    using n assms(3) by (simp add: py_range.simps [of 0])
  then have "packets \<noteq> []" using packets by simp
  then obtain inner rest where ir: "inners = inner # rest"
    using assms(7) by (cases inners) auto
  obtain t where t: "wire_frame inner = MT_MAGIC_0 # t" using wire_frame_hd by blast
  have "concat (map wire_frame inners) = MT_MAGIC_0 # (t @ concat (map wire_frame rest))"
    by (simp add: ir t)
  then obtain xs where xs: "concat (map wire_frame inners) = MT_MAGIC_0 # xs" by blast
  then have "recvbuf self @ concat (map wire_frame inners) = MT_MAGIC_0 # xs" using assms(4) by simp
  from decode_mesh_packets_at_magic [OF this, of lib] loop xs
  have "decode_mesh_packets lib self (concat (map wire_frame inners)) =
          Some (Inr qs, self\<lparr>recvbuf := []\<rparr>)"
    by simp
  moreover have "self\<lparr>recvbuf := []\<rparr> = self" using assms(4) by simp
  ultimately have dec: "decode_mesh_packets lib self (concat (map wire_frame inners)) = Some (Inr qs, self)"
    by simp
  have "foldl accept_packet self (map (fragment_packet self data MAX_LEN) (py_range 0 (length data) MAX_LEN))
        = (process_incoming self (concat (map decoded_payload (recv_partial_msg self)) @ drop 0 data))
            \<lparr>recv_partial_msg := []\<rparr>"
    using assms(3) _ n by (rule foldl_accept_fragments) simp_all
  then have fold: "foldl accept_packet self packets = ?t"
    using assms(5) by (simp add: packets process_incoming_def)
  have "map decoded [] = map decoded (recv_partial_msg self)" using assms(5) by simp
  from foldl_accept_sim [OF same this] obtain ys where
    ys: "foldl accept_packet (self\<lparr>recv_partial_msg := []\<rparr>) qs =
           (foldl accept_packet self packets)\<lparr>recv_partial_msg := ys\<rparr>"
    and m: "map decoded ys = map decoded (recv_partial_msg (foldl accept_packet self packets))"
    by blast
  have "recv_partial_msg ?t = []" using assms(5) by simp
  with m fold have "ys = []" by simp
  moreover have "self\<lparr>recv_partial_msg := []\<rparr> = self" using assms(5) by simp
  moreover have "?t\<lparr>recv_partial_msg := []\<rparr> = ?t" using assms(5) by simp
  ultimately have "foldl accept_packet self qs = ?t" using ys fold by simp
  then show "read_loop_body lib self (concat (map wire_frame inners)) = Some (Inr (), ?t)"
    by (simp add: read_loop_body_def dec)
qed

text \<open>The theorem for a three-byte payload with fragments of two bytes, the two packets
  coming back in \<open>FromRadio\<close> messages.\<close>

theorem roundtrip_over_radio_witness:
  "[10, 11, 12 :: byte] \<noteq> [] \<and>
   DATA_PAYLOAD_LEN (example_lib 6) - 4 = int 2 \<and>
   (0::nat) < 2 \<and>
   recvbuf example_iface = [] \<and>
   recv_partial_msg example_iface = [] \<and>
   fragment_packets (example_lib 6) example_iface [10, 11, 12] =
     Inr [logical_packet 2 256 [10, 11], logical_packet 2 257 [12]] \<and>
   list_all2
     (\<lambda>inner p. inner \<noteq> [] \<and> length inner < 65536 \<and>
        (\<exists>q. FromString (example_lib 6) inner = Some q \<and>
             pkt_channel q = pkt_channel p \<and> decoded q = decoded p))
     [[2, 2, 1, 0, 10, 11], [2, 2, 1, 1, 12]]
     [logical_packet 2 256 [10, 11], logical_packet 2 257 [12]] \<and>
   create_mesh_packets (example_lib 6) example_iface [10, 11, 12] =
     Inr (map (\<lambda>p. wire_frame (SerializeToString (example_lib 6) p))
            [logical_packet 2 256 [10, 11], logical_packet 2 257 [12]]) \<and>
   read_loop_body (example_lib 6) example_iface
       (concat (map wire_frame [[2, 2, 1, 0, 10, 11], [2, 2, 1, 1, 12]])) =
     Some (Inr (), example_iface\<lparr>rxb := rxb example_iface + length [10, 11, 12 :: byte],
                                   inbound := inbound example_iface @ [[10, 11, 12]]\<rparr>)"
proof -
  have h1: "[10, 11, 12 :: byte] \<noteq> []" by simp
  have h2: "DATA_PAYLOAD_LEN (example_lib 6) - 4 = int 2" by (simp add: example_lib_def)
  have h3: "(0::nat) < 2" by simp
  have h4: "recvbuf example_iface = []" by (simp add: example_iface_def)
  have h5: "recv_partial_msg example_iface = []" by (simp add: example_iface_def)
  have h6: "fragment_packets (example_lib 6) example_iface [10, 11, 12] =
     Inr [logical_packet 2 256 [10, 11], logical_packet 2 257 [12]]"
    by (simp add: fragment_packets_def fragment_packet_def Let_def example_lib_def
        example_iface_def slice_def py_range.simps)
  have h7: "list_all2
     (\<lambda>inner p. inner \<noteq> [] \<and> length inner < 65536 \<and>
        (\<exists>q. FromString (example_lib 6) inner = Some q \<and>
             pkt_channel q = pkt_channel p \<and> decoded q = decoded p))
     [[2, 2, 1, 0, 10, 11], [2, 2, 1, 1, 12]]
     [logical_packet 2 256 [10, 11], logical_packet 2 257 [12]]"
    by (simp add: example_lib_def example_parse_def)
  from h1 h2 h3 h4 h5 h6 h7 roundtrip_over_radio [OF h1 h2 h3 h4 h5 h6 h7]
  show ?thesis by blast
qed

text \<open>C1 as stated fails. At length 0 no frame is produced, and reading the empty
  concatenation delivers no message. At length 1 the one frame produced holds a \<open>ToRadio\<close>
  message; the decoder reads it as a \<open>FromRadio\<close> message, finds no packet in it, and the
  reassembly delivers nothing.\<close>

theorem roundtrip_loopback_counterexample:
  "create_mesh_packets (example_lib 233) example_iface [] = Inr [] \<and>
   read_loop_body (example_lib 233) example_iface (concat []) = Some (Inr (), example_iface) \<and>
   create_mesh_packets (example_lib 233) example_iface [7] =
     Inr [[0x94, 0xc3, 0, 5, 1, 2, 1, 1, 7]] \<and>
   read_loop_body (example_lib 233) example_iface (concat [[0x94, 0xc3, 0, 5, 1, 2, 1, 1, 7]]) =
     Some (Inr (), example_iface) \<and>
   inbound example_iface = []"
proof -
  let ?d = "\<lparr>pkt_to = 0, pkt_id = 0, pkt_channel = 0, want_ack = False, decoded = None\<rparr>"
  have e1: "create_mesh_packets (example_lib 233) example_iface [] = Inr []"
    by (simp add: create_mesh_packets_def fragment_packets_def Let_def example_lib_def)
  have e2: "read_loop_body (example_lib 233) example_iface (concat []) = Some (Inr (), example_iface)"
    by (simp add: read_loop_body_def decode_mesh_packets_def bytes_find_def example_iface_def)
  have w: "wire_frame [1, 2, 1, 1, 7] = [0x94, 0xc3, 0, 5, 1, 2, 1, 1, 7]"
    by (simp add: wire_frame_small [where n = 5] MT_MAGIC_0_def MT_MAGIC_1_def)
  have e3: "create_mesh_packets (example_lib 233) example_iface [7] =
     Inr [[0x94, 0xc3, 0, 5, 1, 2, 1, 1, 7]]"
    by (simp add: create_mesh_packets_def fragment_packets_def fragment_packet_def Let_def
        example_lib_def example_iface_def example_serialize_def slice_def
        py_range.simps [of 0] py_range.simps [of 229] w)
  have p: "example_parse [1, 2, 1, 1, 7] = Some ?d" by (simp add: example_parse_def)
  have "decode_loop example_parse (wire_frame [1, 2, 1, 1, 7] @ []) [] =
        decode_loop example_parse [] ([] @ [?d])"
    using p by (intro decode_loop_frame) simp_all
  then have l: "decode_loop example_parse [0x94, 0xc3, 0, 5, 1, 2, 1, 1, 7] [] = Some (Inr [?d], [])"
    by (simp add: w decode_loop_short)
  have "recvbuf example_iface @ concat [[0x94, 0xc3, 0, 5, 1, 2, 1, 1, 7]] =
        MT_MAGIC_0 # [0xc3, 0, 5, 1, 2, 1, 1, 7]"
    by (simp add: example_iface_def MT_MAGIC_0_def)
  from decode_mesh_packets_at_magic [OF this, of "example_lib 233"] l
  have d: "decode_mesh_packets (example_lib 233) example_iface (concat [[0x94, 0xc3, 0, 5, 1, 2, 1, 1, 7]]) =
        Some (Inr [?d], example_iface\<lparr>recvbuf := []\<rparr>)"
    by (simp add: example_lib_def MT_MAGIC_0_def)
  have e4: "read_loop_body (example_lib 233) example_iface (concat [[0x94, 0xc3, 0, 5, 1, 2, 1, 1, 7]]) =
     Some (Inr (), example_iface)"
    unfolding read_loop_body_def d by (simp add: accept_packet_def example_iface_def)
  have e5: "inbound example_iface = []" by (simp add: example_iface_def)
  from e1 e2 e3 e4 e5 show ?thesis by blast
qed

section \<open>Disconnect and reconnect\<close>

text \<open>C9: a zero-length read ends the receive loop, which sets \<open>online\<close> to false and
  runs \<open>reconnect_port\<close>. If the next \<open>n\<close> calls of \<open>open_port\<close> fail and the one after
  them succeeds, for any \<open>n\<close>, the loop returns with \<open>online\<close> true after \<open>n + 1\<close>
  attempts, each after a sleep of 5 s, with the configuration request sent once and one new
  read thread started. If no attempt ever succeeds the loop never returns. Whenever it
  returns, it returns without an exception, online, right after an attempt that
  succeeded.\<close>

theorem zero_length_read_reconnects:
  "read_loop lib connect self (Inr [] # reads) =
     reconnect_port lib connect ((sleep 50 self)\<lparr>online := False\<rparr>) \<and>
   ((\<forall>i<n. connect (open_attempts self + i) \<noteq> None) \<and> connect (open_attempts self + n) = None \<longrightarrow>
      read_loop lib connect self (Inr [] # reads) =
        Some (Inr (), self\<lparr>slept_ms := slept_ms self + 50 + (n + 1) * 5000 + 500,
                           open_attempts := open_attempts self + n + 1,
                           sock_sent := sock_sent self @ [request_mesh_config_info_packet lib],
                           threads_started := threads_started self + 1,
                           online := True\<rparr>)) \<and>
   ((\<forall>i \<ge> open_attempts self. connect' i \<noteq> None) \<longrightarrow>
      read_loop lib connect' self (Inr [] # reads) = None) \<and>
   (read_loop lib connect'' self (Inr [] # reads) = Some (r, self') \<longrightarrow>
      r = Inr () \<and> online self' \<and>
      (\<exists>i \<ge> open_attempts self. connect'' i = None \<and> open_attempts self' = i + 1))"
proof (intro conjI impI)
  let ?s = "(sleep 50 self)\<lparr>online := False\<rparr>"
  have s: "\<not> online ?s" "open_attempts ?s = open_attempts self" by (simp_all add: sleep_def)
  show def: "read_loop lib connect self (Inr [] # reads) = reconnect_port lib connect ?s" by simp
  {
    assume a: "(\<forall>i<n. connect (open_attempts self + i) \<noteq> None) \<and> connect (open_attempts self + n) = None"
    have "reconnect_port lib connect ?s =
         Some (Inr (), ?s\<lparr>slept_ms := slept_ms ?s + (n + 1) * 5000 + 500,
                             open_attempts := open_attempts ?s + n + 1,
                             sock_sent := sock_sent ?s @ [request_mesh_config_info_packet lib],
                             threads_started := threads_started ?s + 1,
                             online := True\<rparr>)"
      using s a by (intro reconnect_port_after_failures) simp_all
    moreover have "?s\<lparr>slept_ms := slept_ms ?s + (n + 1) * 5000 + 500,
                             open_attempts := open_attempts ?s + n + 1,
                             sock_sent := sock_sent ?s @ [request_mesh_config_info_packet lib],
                             threads_started := threads_started ?s + 1,
                             online := True\<rparr> =
        self\<lparr>slept_ms := slept_ms self + 50 + (n + 1) * 5000 + 500,
                           open_attempts := open_attempts self + n + 1,
                           sock_sent := sock_sent self @ [request_mesh_config_info_packet lib],
                           threads_started := threads_started self + 1,
                           online := True\<rparr>"
      by (rule iface.equality) (simp_all add: sleep_def)
    ultimately show "read_loop lib connect self (Inr [] # reads) =
        Some (Inr (), self\<lparr>slept_ms := slept_ms self + 50 + (n + 1) * 5000 + 500,
                           open_attempts := open_attempts self + n + 1,
                           sock_sent := sock_sent self @ [request_mesh_config_info_packet lib],
                           threads_started := threads_started self + 1,
                           online := True\<rparr>)"
      by (simp only: def)
  }
  {
    assume a: "\<forall>i \<ge> open_attempts self. connect' i \<noteq> None"
    show "read_loop lib connect' self (Inr [] # reads) = None"
    proof (rule ccontr)
      assume "read_loop lib connect' self (Inr [] # reads) \<noteq> None"
      then obtain y where "reconnect_port lib connect' ?s = Some y" by auto
      from reconnect_port_needs_success [OF this] s a show False by auto
    qed
  }
  {
    assume a: "read_loop lib connect'' self (Inr [] # reads) = Some (r, self')"
    then have y: "reconnect_port lib connect'' ?s = Some (r, self')" by simp
    from reconnect_port_no_error [OF y] show "r = Inr ()" and "online self'" by simp_all
    from reconnect_port_needs_success [OF y] s
    show "\<exists>i \<ge> open_attempts self. connect'' i = None \<and> open_attempts self' = i + 1" by auto
  }
qed

text \<open>The theorem for an interface whose next two attempts fail and third succeeds, and
  for one whose attempts all fail.\<close>

theorem zero_length_read_reconnects_witness:
  "(\<lambda>i. if i < 3 then Some OSError else None) (open_attempts example_iface + 0) \<noteq> None \<and>
   (\<lambda>i. if i < 3 then Some OSError else None) (open_attempts example_iface + 1) \<noteq> None \<and>
   (\<lambda>i. if i < 3 then Some OSError else None) (open_attempts example_iface + 2) = None \<and>
   \<not> (\<exists>i \<ge> open_attempts example_iface. (\<lambda>i. Some OSError) i = None) \<and>
   read_loop (example_lib 8) (\<lambda>i. if i < 3 then Some OSError else None) example_iface [Inr []] =
     Some (Inr (), example_iface\<lparr>slept_ms := slept_ms example_iface + 50 + (2 + 1) * 5000 + 500,
                           open_attempts := open_attempts example_iface + 2 + 1,
                           sock_sent := sock_sent example_iface @
                              [request_mesh_config_info_packet (example_lib 8)],
                           threads_started := threads_started example_iface + 1,
                           online := True\<rparr>) \<and>
   read_loop (example_lib 8) (\<lambda>i. Some OSError) example_iface [Inr []] = None \<and>
   online (example_iface\<lparr>slept_ms := slept_ms example_iface + 50 + (2 + 1) * 5000 + 500,
                           open_attempts := open_attempts example_iface + 2 + 1,
                           sock_sent := sock_sent example_iface @
                              [request_mesh_config_info_packet (example_lib 8)],
                           threads_started := threads_started example_iface + 1,
                           online := True\<rparr>)"
proof -
  let ?c = "\<lambda>i::nat. if i < 3 then Some OSError else None"
  let ?t = "example_iface\<lparr>slept_ms := slept_ms example_iface + 50 + (2 + 1) * 5000 + 500,
                           open_attempts := open_attempts example_iface + 2 + 1,
                           sock_sent := sock_sent example_iface @
                              [request_mesh_config_info_packet (example_lib 8)],
                           threads_started := threads_started example_iface + 1,
                           online := True\<rparr>"
  have h1: "(\<forall>i<2. ?c (open_attempts example_iface + i) \<noteq> None) \<and>
    ?c (open_attempts example_iface + 2) = None"
    by (simp add: example_iface_def)
  have h2: "\<forall>i \<ge> open_attempts example_iface. (\<lambda>i. Some OSError) i \<noteq> None" by simp
  note t = zero_length_read_reconnects [of "example_lib 8" ?c example_iface "[]" 2
      "\<lambda>i. Some OSError" ?c "Inr ()" ?t]
  have a: "read_loop (example_lib 8) ?c example_iface [Inr []] = Some (Inr (), ?t)"
    by (rule t [THEN conjunct2, THEN conjunct1, THEN mp, OF h1])
  have b: "read_loop (example_lib 8) (\<lambda>i. Some OSError) example_iface [Inr []] = None"
    by (rule t [THEN conjunct2, THEN conjunct2, THEN conjunct1, THEN mp, OF h2])
  have c: "online ?t"
    using t [THEN conjunct2, THEN conjunct2, THEN conjunct2, THEN mp, OF a] by blast
  have g1: "?c (open_attempts example_iface + 0) \<noteq> None"
    and g2: "?c (open_attempts example_iface + 1) \<noteq> None"
    and g3: "?c (open_attempts example_iface + 2) = None"
    by (simp_all add: example_iface_def)
  have g4: "\<not> (\<exists>i \<ge> open_attempts example_iface. (\<lambda>i. Some OSError) i = None)" by simp
  from g1 g2 g3 g4 a b c show ?thesis by blast
qed

end
